theory Spec2Isabelle
  imports Main "HOL-Library.Multiset"
begin

section \<open>The college notice monitor\<close>

text \<open>
  A shallow embedding of \<^verbatim>\<open>src/index.js\<close> (the strategy classes and the
  \<^verbatim>\<open>NoticeMonitor\<close> orchestrator), of the schema in \<^verbatim>\<open>src/database.js\<close> and of
  the pattern filter of the older single-file script.
\<close>

subsection \<open>Strings and notices\<close>

text \<open>
  A JavaScript string is a sequence of UTF-16 code units; a code unit is a natural number.
  \<open>js\<close> turns an ASCII literal into such a sequence.
\<close>

type_synonym code_unit = nat
type_synonym jsstring = "code_unit list"

definition js :: "string \<Rightarrow> jsstring" where
  "js s = map of_char s"

text \<open>
  The \<^verbatim>\<open>id\<close> of an upstream notice is a JSON number (an integer here) or a JSON
  string. The \<^verbatim>\<open>Map\<close> of \<^verbatim>\<open>fetchNotices\<close> compares the raw values, the
  persistence strategy compares \<^verbatim>\<open>String(id)\<close>, which writes an integer in decimal
  digits (as JavaScript does below \<open>10^21\<close>).
\<close>

datatype jsid = IdNum int | IdStr jsstring

record notice =
  id_n :: jsid
  title :: jsstring
  date :: jsstring
  content :: jsstring

fun decimal :: "nat \<Rightarrow> jsstring" where
  "decimal n = (if n < 10 then [48 + n] else decimal (n div 10) @ [48 + n mod 10])"

declare decimal.simps [simp del]

fun String :: "jsid \<Rightarrow> jsstring" where
  "String (IdStr s) = s"
| "String (IdNum i) = (if i < 0 then 45 # decimal (nat (- i)) else decimal (nat i))"

subsection \<open>Regular expressions of the content filter\<close>

text \<open>
  The six patterns use literals, \<^verbatim>\<open>.\<close>, \<^verbatim>\<open>\s\<close>, \<^verbatim>\<open>\b\<close>, alternation, an optional
  literal, and \<^verbatim>\<open>*\<close> or \<^verbatim>\<open>*?\<close> on a single-character atom, all under the flag
  \<^verbatim>\<open>i\<close> and without the flag \<^verbatim>\<open>u\<close>.
\<close>

datatype atom = Lit code_unit | Dot | Space

datatype regex =
    Empty
  | Atom atom
  | Star atom
  | StarLazy atom
  | Opt regex
  | Seq regex regex
  | Alt regex regex
  | WordBoundary

definition is_space :: "code_unit \<Rightarrow> bool" where
  "is_space c \<longleftrightarrow>
     (9 \<le> c \<and> c \<le> 13) \<or> c = 32 \<or> c = 160 \<or> c = 5760 \<or> (8192 \<le> c \<and> c \<le> 8202) \<or>
     c = 8232 \<or> c = 8233 \<or> c = 8239 \<or> c = 8287 \<or> c = 12288 \<or> c = 65279"

definition is_line_terminator :: "code_unit \<Rightarrow> bool" where
  "is_line_terminator c \<longleftrightarrow> c = 10 \<or> c = 13 \<or> c = 8232 \<or> c = 8233"

definition is_word_char :: "code_unit \<Rightarrow> bool" where
  "is_word_char c \<longleftrightarrow>
     (48 \<le> c \<and> c \<le> 57) \<or> (65 \<le> c \<and> c \<le> 90) \<or> c = 95 \<or> (97 \<le> c \<and> c \<le> 122)"

text \<open>
  Case folding of the flag \<^verbatim>\<open>i\<close>: every literal of the patterns is ASCII, and without
  the flag \<^verbatim>\<open>u\<close> a code unit above 127 never folds to an ASCII one, so folding the ASCII
  letters decides every comparison with a literal.
\<close>

definition canonicalize :: "code_unit \<Rightarrow> code_unit" where
  "canonicalize c = (if 97 \<le> c \<and> c \<le> 122 then c - 32 else c)"

fun atom_matches :: "atom \<Rightarrow> code_unit \<Rightarrow> bool" where
  "atom_matches (Lit p) c = (canonicalize c = canonicalize p)"
| "atom_matches Dot c = (\<not> is_line_terminator c)"
| "atom_matches Space c = is_space c"

text \<open>
  A position of the matcher: the code unit before it (none at the start of the input) and
  the input from it on. \<^verbatim>\<open>\b\<close> holds where exactly one side is a word character.
\<close>

type_synonym position = "code_unit option \<times> jsstring"

fun at_word_boundary :: "position \<Rightarrow> bool" where
  "at_word_boundary (q, cs) \<longleftrightarrow>
     (case q of None \<Rightarrow> False | Some c \<Rightarrow> is_word_char c) \<noteq>
     (case cs of [] \<Rightarrow> False | c # _ \<Rightarrow> is_word_char c)"

text \<open>The positions after zero, one, two, ... repetitions of an atom, shortest first.\<close>

fun repeats :: "atom \<Rightarrow> code_unit option \<Rightarrow> jsstring \<Rightarrow> position list" where
  "repeats a q [] = [(q, [])]"
| "repeats a q (c # cs) =
     (q, c # cs) # (if atom_matches a c then repeats a (Some c) cs else [])"

text \<open>
  \<open>ends r p\<close> lists the positions where a match of \<open>r\<close> that starts at position \<open>p\<close>
  can end, in the order in which the backtracking matcher tries them: a greedy star
  tries the longest repetition first, a lazy one the shortest.
\<close>

fun ends :: "regex \<Rightarrow> position \<Rightarrow> position list" where
  "ends Empty p = [p]"
| "ends (Atom a) p =
     (case snd p of [] \<Rightarrow> [] | c # cs \<Rightarrow> if atom_matches a c then [(Some c, cs)] else [])"
| "ends (Star a) p = rev (repeats a (fst p) (snd p))"
| "ends (StarLazy a) p = repeats a (fst p) (snd p)"
| "ends (Opt r) p = ends r p @ [p]"
| "ends (Seq r1 r2) p = concat (map (ends r2) (ends r1 p))"
| "ends (Alt r1 r2) p = ends r1 p @ ends r2 p"
| "ends WordBoundary p = (if at_word_boundary p then [p] else [])"

text \<open>\<^verbatim>\<open>regex.test(title)\<close> of a pattern without the flags \<^verbatim>\<open>g\<close> and \<^verbatim>\<open>y\<close>: the
  match may start at any position, the end of the input included.\<close>

fun search :: "regex \<Rightarrow> code_unit option \<Rightarrow> jsstring \<Rightarrow> bool" where
  "search r q [] = (ends r (q, []) \<noteq> [])"
| "search r q (c # cs) = (ends r (q, c # cs) \<noteq> [] \<or> search r (Some c) cs)"

definition test :: "regex \<Rightarrow> jsstring \<Rightarrow> bool" where
  "test r s = search r None s"

definition lit :: "string \<Rightarrow> regex" where
  "lit w = foldr (\<lambda>c r. Seq (Atom (Lit (of_char c))) r) w Empty"

definition seqs :: "regex list \<Rightarrow> regex" where
  "seqs rs = foldr Seq rs Empty"

definition sixth :: regex where
  "sixth = Alt (lit ''6th'') (Alt (Seq (lit ''VI'') WordBoundary) (lit ''Sixth''))"

definition CRITICAL_PATTERNS :: "regex list" where
  "CRITICAL_PATTERNS =
    [seqs [lit ''BTU'', Star Dot, lit ''Exam'', Star Dot, lit ''Form'', Star Dot, lit ''VI'',
           Star Space, lit ''Sem''],
     seqs [lit ''B'', Opt (Atom (Lit 46)), lit ''Tech'', Star Dot, sixth, Star Space, lit ''Sem''],
     seqs [lit ''Even'', Star Space, lit ''Sem'', Star Dot, lit ''Exam''],
     seqs [Alt (lit ''Exam'') (Alt (lit ''Form'') (lit ''Fee'')), StarLazy Dot, sixth]]"

definition GENERIC_EXAM_FORM :: regex where
  "GENERIC_EXAM_FORM = seqs [lit ''Exam'', Star Dot, lit ''Form'']"

definition EXCLUDE_SEMESTERS :: regex where
  "EXCLUDE_SEMESTERS =
     Alt (lit ''1st'') (Alt (lit ''3rd'') (Alt (lit ''5th'') (Alt (lit ''7th'')
    (Alt (seqs [lit ''I'', Star Space, lit ''Sem''])
    (Alt (seqs [lit ''III'', Star Space, lit ''Sem''])
    (Alt (seqs [lit ''V'', Star Space, lit ''Sem''])
         (seqs [lit ''VII'', Star Space, lit ''Sem''])))))))"

subsection \<open>ContentFilterStrategy\<close>

definition ContentFilter_check :: "notice \<Rightarrow> bool" where
  "ContentFilter_check n =
     (let t = title n;
          explicitMatch = list_ex (\<lambda>r. test r t) CRITICAL_PATTERNS;
          isGenericUrgent = (test GENERIC_EXAM_FORM t \<and> \<not> test EXCLUDE_SEMESTERS t)
      in if explicitMatch \<or> isGenericUrgent then True else False)"

text \<open>The pattern filter of the older script (\<^verbatim>\<open>relevantNotices\<close> in \<^verbatim>\<open>checkNews\<close>),
  which the class took over.\<close>

definition checkNews_relevant :: "notice list \<Rightarrow> notice list" where
  "checkNews_relevant recentCirculars =
     filter (\<lambda>item.
        let t = title item;
            explicitMatch = list_ex (\<lambda>r. test r t) CRITICAL_PATTERNS;
            isGenericUrgent = (test GENERIC_EXAM_FORM t \<and> \<not> test EXCLUDE_SEMESTERS t)
        in if explicitMatch \<or> isGenericUrgent then True else False) recentCirculars"

subsection \<open>Configuration\<close>

text \<open>
  The environment variables that steer the control flow, each a string or undefined.
  The endpoint URLs, the API key and the mail addresses only reach the external services,
  whose answers are inputs of the model.
\<close>

record process_env =
  env_MONGO_URI :: "jsstring option"
  env_TEST_MODE :: "jsstring option"
  env_SEED_MODE :: "jsstring option"
  env_NOTICE_AGE_LIMIT_HOURS :: "jsstring option"

record config =
  MONGO_URI :: "jsstring option"
  TEST_MODE :: bool
  SEED_MODE :: bool
  NOTICE_AGE_LIMIT_HOURS :: "int option"

definition is_digit :: "code_unit \<Rightarrow> bool" where
  "is_digit c \<longleftrightarrow> 48 \<le> c \<and> c \<le> 57"

definition digits_value :: "jsstring \<Rightarrow> int" where
  "digits_value z = foldl (\<lambda>acc c. acc * 10 + int (c - 48)) 0 z"

text \<open>
  \<^verbatim>\<open>parseInt(s, 10)\<close>: leading white space is skipped, one sign is read, then the
  longest run of decimal digits; no digit gives \<^verbatim>\<open>NaN\<close>, here \<open>None\<close>. The value is
  exact below \<open>2^53\<close>, the range in which the cutoff below is a valid date.
\<close>

definition parseInt :: "jsstring \<Rightarrow> int option" where
  "parseInt s =
     (let t = dropWhile is_space s;
          negative = (case t of [] \<Rightarrow> False | c # _ \<Rightarrow> c = 45);
          u = (case t of [] \<Rightarrow> [] | c # cs \<Rightarrow> if c = 45 \<or> c = 43 then cs else t);
          z = takeWhile is_digit u
      in if z = [] then None
         else Some (if negative then - digits_value z else digits_value z))"

definition or_default :: "jsstring option \<Rightarrow> jsstring \<Rightarrow> jsstring" where
  "or_default v d = (case v of None \<Rightarrow> d | Some s \<Rightarrow> if s = [] then d else s)"

definition Config :: "process_env \<Rightarrow> config" where
  "Config e =
     \<lparr>MONGO_URI = env_MONGO_URI e,
      TEST_MODE = (env_TEST_MODE e = Some (js ''true'')),
      SEED_MODE = (env_SEED_MODE e = Some (js ''true'')),
      NOTICE_AGE_LIMIT_HOURS = parseInt (or_default (env_NOTICE_AGE_LIMIT_HOURS e) (js ''24''))\<rparr>"

subsection \<open>TimeFilterStrategy\<close>

text \<open>
  The time value of a \<^verbatim>\<open>Date\<close> is a number of milliseconds, or \<^verbatim>\<open>NaN\<close> for an
  invalid date (\<open>None\<close>). \<^verbatim>\<open>new Date(x)\<close> clips: beyond 8.64e15 ms the date is
  invalid. Parsing a date string is the runtime's \<^verbatim>\<open>Date.parse\<close>, a parameter here.
\<close>

definition TimeClip :: "int \<Rightarrow> int option" where
  "TimeClip t = (if \<bar>t\<bar> > 8640000000000000 then None else Some t)"

record TimeFilterStrategy =
  cutoffDate :: "int option"

definition new_TimeFilterStrategy :: "config \<Rightarrow> int \<Rightarrow> TimeFilterStrategy" where
  "new_TimeFilterStrategy cfg Date_now =
     \<lparr>cutoffDate =
        (case NOTICE_AGE_LIMIT_HOURS cfg of
           None \<Rightarrow> None
         | Some hours \<Rightarrow> TimeClip (Date_now - hours * 60 * 60 * 1000))\<rparr>"

text \<open>\<^verbatim>\<open>a >= b\<close> on two dates compares their time values; with \<^verbatim>\<open>NaN\<close> on either
  side it is false.\<close>

fun date_ge :: "int option \<Rightarrow> int option \<Rightarrow> bool" where
  "date_ge (Some a) (Some b) = (a \<ge> b)"
| "date_ge _ _ = False"

definition TimeFilter_check ::
  "(jsstring \<Rightarrow> int option) \<Rightarrow> TimeFilterStrategy \<Rightarrow> notice \<Rightarrow> bool" where
  "TimeFilter_check Date_parse f n = date_ge (Date_parse (date n)) (cutoffDate f)"

subsection \<open>The store and the state of a run\<close>

text \<open>
  A document of the \<^verbatim>\<open>Notice\<close> collection (\<^verbatim>\<open>sentAt\<close>, a write timestamp that nothing
  reads, is left out). The schema requires \<^verbatim>\<open>noticeId\<close>, \<^verbatim>\<open>title\<close> and \<^verbatim>\<open>date\<close>
  (a required string must not be empty) and makes \<^verbatim>\<open>noticeId\<close> unique.
\<close>

record known_sent =
  noticeId :: jsstring
  doc_title :: jsstring
  doc_date :: jsstring
  url :: jsstring

type_synonym collection = "known_sent list"

definition valid_doc :: "known_sent \<Rightarrow> bool" where
  "valid_doc d \<longleftrightarrow> noticeId d \<noteq> [] \<and> doc_title d \<noteq> [] \<and> doc_date d \<noteq> []"

datatype strategy = TimeFilter TimeFilterStrategy | ContentFilter | PersistenceFilter

record email =
  critical :: bool
  test_prefix :: bool
  cards :: "(notice \<times> bool) list"

datatype error =
    MongoUriNotDefined
  | MongoConnectionFailed
  | RequestFailed
  | QueryFailed
  | BulkWriteError
  | EmailSendingFailed
  | ResendThrew
  | DisconnectFailed

datatype message =
    MongoConnected
  | MongoConnectionFailure
  | MongoDisconnected
  | TestModeSkipping
  | SeedModeActive
  | SeedingComplete nat
  | BaselineExists
  | TestModeNotSaving
  | NoNewNotices
  | ErrorSavingToDB error
  | EmailSent
  | ResendApiError
  | EmailFailure error
  | CriticalError error

text \<open>What a run does that can be observed: console lines, calls of the strategies'
  methods, the mail handed to the delivery service, the end of the process.\<close>

datatype event =
    Console message
  | ApplyFilters "notice list"
  | Check strategy notice
  | Send email
  | SaveSentNotices "notice list"
  | ProcessExit nat

text \<open>
  The state a run works on: the collection in the store, the field \<^verbatim>\<open>existingIds\<close> of
  the one \<^verbatim>\<open>MongoPersistenceStrategy\<close> object (the monitor's \<^verbatim>\<open>persistence\<close> and the
  \<open>PersistenceFilter\<close> in the strategy list are that same object), and the events so far.
\<close>

record world =
  db :: collection
  existingIds :: "jsstring set"
  trace :: "event list"

text \<open>
  How a call ends: it returns, it throws, or \<^verbatim>\<open>process.exit\<close> has ended the process.
  An exit is not an exception: no \<^verbatim>\<open>catch\<close> sees it and no \<^verbatim>\<open>finally\<close> block runs
  after it.
\<close>

datatype 'a outcome = Returns 'a world | Throws error world | Exits nat world

fun and_then :: "'a outcome \<Rightarrow> ('a \<Rightarrow> world \<Rightarrow> 'b outcome) \<Rightarrow> 'b outcome" where
  "and_then (Returns a w) f = f a w"
| "and_then (Throws e w) f = Throws e w"
| "and_then (Exits c w) f = Exits c w"

fun try_catch :: "'a outcome \<Rightarrow> (error \<Rightarrow> world \<Rightarrow> 'a outcome) \<Rightarrow> 'a outcome" where
  "try_catch (Returns a w) h = Returns a w"
| "try_catch (Throws e w) h = h e w"
| "try_catch (Exits c w) h = Exits c w"

fun try_finally :: "'a outcome \<Rightarrow> (world \<Rightarrow> unit outcome) \<Rightarrow> 'a outcome" where
  "try_finally (Returns a w) f = and_then (f w) (\<lambda>_. Returns a)"
| "try_finally (Throws e w) f = and_then (f w) (\<lambda>_. Throws e)"
| "try_finally (Exits c w) f = Exits c w"

fun final :: "'a outcome \<Rightarrow> world" where
  "final (Returns a w) = w"
| "final (Throws e w) = w"
| "final (Exits c w) = w"

definition emit :: "event \<Rightarrow> world \<Rightarrow> world" where
  "emit e w = w\<lparr>trace := trace w @ [e]\<rparr>"

definition process_exit :: "nat \<Rightarrow> world \<Rightarrow> 'a outcome" where
  "process_exit code w = Exits code (emit (ProcessExit code) w)"

text \<open>
  The answers of the runtime and of the external services during one run: the clock read
  when the time filter is built, the date parser, the order in which the engine's sort
  leaves a list when its comparator is not consistent, whether the store can be reached
  when connecting, querying, inserting and disconnecting, the two upstream responses (a
  rejected request, or a body whose \<^verbatim>\<open>data\<close> is a list or missing) and what the mail
  service does.
\<close>

datatype response = Rejected | Body "notice list option"

datatype delivery = Delivered | ErrorField | SendThrows

record services =
  Date_now :: int
  Date_parse :: "jsstring \<Rightarrow> int option"
  engine_order :: "notice list \<Rightarrow> notice list"
  connect_ok :: bool
  news :: response
  exam :: response
  find_ok :: bool
  insert_ok :: bool
  send_result :: delivery
  disconnect_ok :: bool

subsection \<open>database.js\<close>

definition connectDB :: "jsstring option \<Rightarrow> services \<Rightarrow> world \<Rightarrow> unit outcome" where
  "connectDB uri sv w =
     (if uri = None \<or> uri = Some [] then Throws MongoUriNotDefined w
      else if connect_ok sv then Returns () (emit (Console MongoConnected) w)
      else Throws MongoConnectionFailed (emit (Console MongoConnectionFailure) w))"

definition disconnectDB :: "services \<Rightarrow> world \<Rightarrow> unit outcome" where
  "disconnectDB sv w =
     (if disconnect_ok sv then Returns () (emit (Console MongoDisconnected) w)
      else Throws DisconnectFailed w)"

text \<open>
  \<^verbatim>\<open>Notice.find({ noticeId: { $in: ids } })\<close> and
  \<^verbatim>\<open>Notice.insertMany(docs, { ordered: false })\<close> as the document store answers them.
  An unordered bulk insert leaves out the documents the schema rejects, tries every other
  document in turn, skips one whose \<^verbatim>\<open>noticeId\<close> is already in the collection, and
  throws at the end when it skipped one for that reason; an unreachable store throws
  and inserts nothing. The second component is the error thrown, if any.
\<close>

definition Notice_find :: "jsstring list \<Rightarrow> collection \<Rightarrow> known_sent list" where
  "Notice_find ids coll = filter (\<lambda>d. noticeId d \<in> set ids) coll"

fun insert_unordered :: "known_sent list \<Rightarrow> collection \<Rightarrow> collection \<times> bool" where
  "insert_unordered [] coll = (coll, False)"
| "insert_unordered (d # ds) coll =
     (if noticeId d \<in> set (map noticeId coll)
      then (fst (insert_unordered ds coll), True)
      else insert_unordered ds (coll @ [d]))"

definition Notice_insertMany ::
  "bool \<Rightarrow> known_sent list \<Rightarrow> collection \<Rightarrow> collection \<times> error option" where
  "Notice_insertMany reachable docs coll =
     (if \<not> reachable then (coll, Some MongoConnectionFailed)
      else case insert_unordered (filter valid_doc docs) coll of
             (coll', duplicate) \<Rightarrow> (coll', if duplicate then Some BulkWriteError else None))"

subsection \<open>MongoPersistenceStrategy\<close>

definition init :: "config \<Rightarrow> services \<Rightarrow> world \<Rightarrow> unit outcome" where
  "init cfg sv w = connectDB (MONGO_URI cfg) sv w"

definition preload :: "services \<Rightarrow> notice list \<Rightarrow> world \<Rightarrow> unit outcome" where
  "preload sv notices w =
     (if notices = [] then Returns () w
      else let idsToCheck = map (\<lambda>n. String (id_n n)) notices
           in if find_ok sv
              then Returns ()
                     (w\<lparr>existingIds := set (map noticeId (Notice_find idsToCheck (db w)))\<rparr>)
              else Throws QueryFailed w)"

definition MongoPersistence_check :: "jsstring set \<Rightarrow> notice \<Rightarrow> bool" where
  "MongoPersistence_check ids n = (String (id_n n) \<notin> ids)"

definition operation :: "notice \<Rightarrow> known_sent" where
  "operation n =
     \<lparr>noticeId = String (id_n n), doc_title = title n, doc_date = date n, url = content n\<rparr>"

definition saveSentNotices :: "services \<Rightarrow> notice list \<Rightarrow> world \<Rightarrow> unit outcome" where
  "saveSentNotices sv notices w0 =
     (let w = emit (SaveSentNotices notices) w0
      in if notices = [] then Returns () w
         else let operations = map operation notices
              in case Notice_insertMany (insert_ok sv) operations (db w) of
                   (coll, None) \<Rightarrow>
                     Returns ()
                       (w\<lparr>db := coll,
                          existingIds := existingIds w \<union> set (map (\<lambda>n. String (id_n n)) notices)\<rparr>)
                 | (coll, Some error) \<Rightarrow>
                     Returns () (emit (Console (ErrorSavingToDB error)) (w\<lparr>db := coll\<rparr>)))"

definition cleanup :: "services \<Rightarrow> world \<Rightarrow> unit outcome" where
  "cleanup sv w = disconnectDB sv w"

subsection \<open>NoticeMonitor\<close>

text \<open>
  A JavaScript \<^verbatim>\<open>Map\<close> built from a list of entries: a key seen before keeps its place
  and takes the new value, a new key goes to the end.
\<close>

fun Map_set :: "('k \<times> 'v) list \<Rightarrow> 'k \<Rightarrow> 'v \<Rightarrow> ('k \<times> 'v) list" where
  "Map_set [] k v = [(k, v)]"
| "Map_set ((k', v') # m) k v =
     (if k' = k then (k, v) # m else (k', v') # Map_set m k v)"

definition Map_set_all :: "('k \<times> 'v) list \<Rightarrow> ('k \<times> 'v) list \<Rightarrow> ('k \<times> 'v) list" where
  "Map_set_all m entries = foldl (\<lambda>m (k, v). Map_set m k v) m entries"

definition new_Map :: "('k \<times> 'v) list \<Rightarrow> ('k \<times> 'v) list" where
  "new_Map entries = Map_set_all [] entries"

definition merge_unique :: "notice list \<Rightarrow> notice list \<Rightarrow> notice list" where
  "merge_unique newsData examData =
     (let allNotices = newsData @ examData
      in map snd (new_Map (map (\<lambda>item. (id_n item, item)) allNotices)))"

definition data_or_empty :: "notice list option \<Rightarrow> notice list" where
  "data_or_empty d = (case d of None \<Rightarrow> [] | Some xs \<Rightarrow> xs)"

definition fetchNotices :: "services \<Rightarrow> world \<Rightarrow> notice list outcome" where
  "fetchNotices sv w =
     (case news sv of
        Rejected \<Rightarrow> Throws RequestFailed w
      | Body newsData \<Rightarrow>
          (case exam sv of
             Rejected \<Rightarrow> Throws RequestFailed w
           | Body examData \<Rightarrow>
               Returns (merge_unique (data_or_empty newsData) (data_or_empty examData)) w))"

text \<open>
  \<^verbatim>\<open>uniqueNotices.sort((a, b) => new Date(a.date) - new Date(b.date))\<close>. When every
  date parses, the comparator is consistent and the sort is the stable sort by date,
  written here as an insertion sort. With an unparseable date the comparator answers
  \<^verbatim>\<open>NaN\<close>, and the language leaves the order to the engine: the order is then the
  input \<open>engine_order\<close>, of which only the language's guarantee is used, that the
  result is a rearrangement of the list.
\<close>

definition comes_after :: "(jsstring \<Rightarrow> int option) \<Rightarrow> notice \<Rightarrow> notice \<Rightarrow> bool" where
  "comes_after parse a b =
     (case (parse (date a), parse (date b)) of
        (Some x, Some y) \<Rightarrow> x - y > 0
      | _ \<Rightarrow> False)"

fun insert_by :: "('a \<Rightarrow> 'a \<Rightarrow> bool) \<Rightarrow> 'a \<Rightarrow> 'a list \<Rightarrow> 'a list" where
  "insert_by after x [] = [x]"
| "insert_by after x (y # ys) =
     (if after x y then y # insert_by after x ys else x # y # ys)"

definition sort_notices :: "services \<Rightarrow> notice list \<Rightarrow> notice list" where
  "sort_notices sv notices =
     (if list_all (\<lambda>n. Date_parse sv (date n) \<noteq> None) notices
      then foldr (insert_by (comes_after (Date_parse sv))) notices []
      else let sorted = engine_order sv notices
           in if mset sorted = mset notices then sorted else notices)"

text \<open>
  \<^verbatim>\<open>applyFilters\<close>, over any kind of strategy with its \<^verbatim>\<open>check\<close>. Beside the value of
  the source (the notices kept) it gives the calls of \<^verbatim>\<open>check\<close> it made, in order.
  \<open>check_each\<close> is the inner loop over the strategies for one notice.
\<close>

fun check_each :: "('s \<Rightarrow> 'n \<Rightarrow> bool) \<Rightarrow> 's list \<Rightarrow> 'n \<Rightarrow> bool \<times> 's list" where
  "check_each chk [] notice = (True, [])"
| "check_each chk (strategy # rest) notice =
     (if \<not> chk strategy notice then (False, [strategy])
      else case check_each chk rest notice of (keep, called) \<Rightarrow> (keep, strategy # called))"

fun applyFilters ::
  "('s \<Rightarrow> 'n \<Rightarrow> bool) \<Rightarrow> 's list \<Rightarrow> 'n list \<Rightarrow> 'n list \<times> ('s \<times> 'n) list" where
  "applyFilters chk strategies [] = ([], [])"
| "applyFilters chk strategies (notice # notices) =
     (case check_each chk strategies notice of
        (keep, called) \<Rightarrow>
          (case applyFilters chk strategies notices of
             (results, calls) \<Rightarrow>
               (if keep then notice # results else results,
                map (\<lambda>s. (s, notice)) called @ calls)))"

fun check :: "(jsstring \<Rightarrow> int option) \<Rightarrow> jsstring set \<Rightarrow> strategy \<Rightarrow> notice \<Rightarrow> bool" where
  "check parse ids (TimeFilter f) n = TimeFilter_check parse f n"
| "check parse ids ContentFilter n = ContentFilter_check n"
| "check parse ids PersistenceFilter n = MongoPersistence_check ids n"

definition applyFilters_step ::
  "services \<Rightarrow> strategy list \<Rightarrow> notice list \<Rightarrow> world \<Rightarrow> notice list outcome" where
  "applyFilters_step sv strategies notices w =
     (case applyFilters (check (Date_parse sv) (existingIds w)) strategies notices of
        (results, calls) \<Rightarrow>
          Returns results
            (w\<lparr>trace := trace w @ ApplyFilters notices # map (\<lambda>(s, n). Check s n) calls\<rparr>))"

text \<open>
  \<^verbatim>\<open>sendEmail\<close>: every notice is classified by the content filter, the subject depends
  on whether any is critical, one mail is handed to the delivery service. A delivery
  that answers with an \<^verbatim>\<open>error\<close> field and one that throws both end in a throw. The
  HTML of the cards is not modelled beyond the notice and its classification.
\<close>

definition sendEmail :: "config \<Rightarrow> services \<Rightarrow> notice list \<Rightarrow> world \<Rightarrow> unit outcome" where
  "sendEmail cfg sv notices w =
     (let classified = map (\<lambda>n. (n, ContentFilter_check n)) notices;
          hasCritical = list_ex snd classified;
          mail = \<lparr>critical = hasCritical, test_prefix = TEST_MODE cfg, cards = classified\<rparr>;
          w1 = emit (Send mail) w
      in case send_result sv of
           Delivered \<Rightarrow> Returns () (emit (Console EmailSent) w1)
         | ErrorField \<Rightarrow>
             Throws EmailSendingFailed
               (emit (Console (EmailFailure EmailSendingFailed)) (emit (Console ResendApiError) w1))
         | SendThrows \<Rightarrow> Throws ResendThrew (emit (Console (EmailFailure ResendThrew)) w1))"

definition run_try :: "config \<Rightarrow> services \<Rightarrow> strategy list \<Rightarrow> world \<Rightarrow> unit outcome" where
  "run_try cfg sv strategies w0 =
     and_then (init cfg sv w0) (\<lambda>_ w1.
     and_then (fetchNotices sv w1) (\<lambda>fetched w2.
     let uniqueNotices = sort_notices sv fetched in
     and_then (preload sv uniqueNotices w2) (\<lambda>_ w3.
     if SEED_MODE cfg then
       (let w4 = emit (Console SeedModeActive) w3;
            noticesToSeed = filter (\<lambda>n. String (id_n n) \<notin> existingIds w4) uniqueNotices
        in if noticesToSeed \<noteq> [] then
             and_then (saveSentNotices sv noticesToSeed w4) (\<lambda>_ w5.
               Returns () (emit (Console (SeedingComplete (length noticesToSeed))) w5))
           else Returns () (emit (Console BaselineExists) w4))
     else
       and_then (applyFilters_step sv strategies uniqueNotices w3) (\<lambda>relevantNotices w4.
       if relevantNotices \<noteq> [] then
         and_then (sendEmail cfg sv relevantNotices w4) (\<lambda>_ w5.
           if \<not> TEST_MODE cfg then saveSentNotices sv relevantNotices w5
           else Returns () (emit (Console TestModeNotSaving) w5))
       else Returns () (emit (Console NoNewNotices) w4)))))"

text \<open>
  \<^verbatim>\<open>run\<close>: the \<^verbatim>\<open>try\<close> block, the \<^verbatim>\<open>catch\<close> block, which logs and calls
  \<^verbatim>\<open>process.exit(1)\<close>, and the \<^verbatim>\<open>finally\<close> block with the cleanup. Both callers in the
  repository construct the monitor with a persistence strategy.
\<close>

definition run :: "config \<Rightarrow> services \<Rightarrow> strategy list \<Rightarrow> world \<Rightarrow> unit outcome" where
  "run cfg sv strategies w =
     try_finally
       (try_catch (run_try cfg sv strategies w)
          (\<lambda>error w'. process_exit 1 (emit (Console (CriticalError error)) w')))
       (cleanup sv)"

text \<open>The execution block at the end of \<^verbatim>\<open>index.js\<close>, started on a store that holds
  \<open>coll\<close>: a fresh persistence strategy, the strategy list by mode, one run.\<close>

definition main_strategies :: "config \<Rightarrow> services \<Rightarrow> strategy list" where
  "main_strategies cfg sv =
     (if \<not> TEST_MODE cfg
      then [TimeFilter (new_TimeFilterStrategy cfg (Date_now sv)), PersistenceFilter]
      else [])"

definition main :: "config \<Rightarrow> services \<Rightarrow> collection \<Rightarrow> unit outcome" where
  "main cfg sv coll =
     (let w0 = \<lparr>db = coll, existingIds = {}, trace = []\<rparr>;
          w1 = (if \<not> TEST_MODE cfg then w0 else emit (Console TestModeSkipping) w0)
      in run cfg sv (main_strategies cfg sv) w1)"

subsection \<open>The parts of a run\<close>

text \<open>
  Names for the three parts of the \<^verbatim>\<open>try\<close> block, to state lemmas about them: the
  steps up to the preload, the seed-mode branch, and the branch that filters, notifies and
  records. \<open>run_try\<close> is their composition (lemma \<open>run_try_phases\<close>). \<open>insert_error\<close>
  is the error the bulk insert of \<open>saveSentNotices\<close> throws on the given notices, if any.
\<close>

definition prepare :: "config \<Rightarrow> services \<Rightarrow> world \<Rightarrow> notice list outcome" where
  "prepare cfg sv w0 =
     and_then (init cfg sv w0) (\<lambda>_ w1.
     and_then (fetchNotices sv w1) (\<lambda>fetched w2.
     let uniqueNotices = sort_notices sv fetched in
     and_then (preload sv uniqueNotices w2) (\<lambda>_ w3. Returns uniqueNotices w3)))"

definition seed_branch :: "services \<Rightarrow> notice list \<Rightarrow> world \<Rightarrow> unit outcome" where
  "seed_branch sv uniqueNotices w3 =
     (let w4 = emit (Console SeedModeActive) w3;
          noticesToSeed = filter (\<lambda>n. String (id_n n) \<notin> existingIds w4) uniqueNotices
      in if noticesToSeed \<noteq> [] then
           and_then (saveSentNotices sv noticesToSeed w4) (\<lambda>_ w5.
             Returns () (emit (Console (SeedingComplete (length noticesToSeed))) w5))
         else Returns () (emit (Console BaselineExists) w4))"

definition notify_branch ::
  "config \<Rightarrow> services \<Rightarrow> strategy list \<Rightarrow> notice list \<Rightarrow> world \<Rightarrow> unit outcome" where
  "notify_branch cfg sv strategies uniqueNotices w3 =
     and_then (applyFilters_step sv strategies uniqueNotices w3) (\<lambda>relevantNotices w4.
       if relevantNotices \<noteq> [] then
         and_then (sendEmail cfg sv relevantNotices w4) (\<lambda>_ w5.
           if \<not> TEST_MODE cfg then saveSentNotices sv relevantNotices w5
           else Returns () (emit (Console TestModeNotSaving) w5))
       else Returns () (emit (Console NoNewNotices) w4))"

definition insert_error :: "services \<Rightarrow> notice list \<Rightarrow> world \<Rightarrow> error option" where
  "insert_error sv notices w =
     snd (Notice_insertMany (insert_ok sv) (map operation notices) (db w))"

subsection \<open>Example data\<close>

text \<open>Notices in the shape of the mock data of the simulation script, a date table for
  the parser, and a clock a few hours after the newer date.\<close>

definition vi_sem_notice :: notice where
  "vi_sem_notice =
     \<lparr>id_n = IdStr (js ''99999''), title = js ''Exam Form VI Sem'',
      date = js ''2025-03-02'', content = js ''form_vi_sem.pdf''\<rparr>"

definition holiday_notice :: notice where
  "holiday_notice =
     \<lparr>id_n = IdStr (js ''88888''), title = js ''Holiday Notice'',
      date = js ''2025-02-28'', content = js ''holi.pdf''\<rparr>"

definition vi_sem_revised :: notice where
  "vi_sem_revised =
     \<lparr>id_n = IdStr (js ''99999''), title = js ''Exam Form VI Sem (Revised)'',
      date = js ''2025-03-02'', content = js ''form_vi_sem_v2.pdf''\<rparr>"

definition vi_sem_numeric :: notice where
  "vi_sem_numeric =
     \<lparr>id_n = IdNum 99999, title = js ''Exam Form VI Sem'',
      date = js ''2025-03-02'', content = js ''form_vi_sem.pdf''\<rparr>"

definition example_parse :: "jsstring \<Rightarrow> int option" where
  "example_parse =
     map_of [(js ''2025-03-02'', 1740873600000), (js ''2025-03-01'', 1740787200000),
             (js ''2025-02-28'', 1740700800000)]"

definition example_config :: config where
  "example_config =
     \<lparr>MONGO_URI = Some (js ''mongodb://db''), TEST_MODE = False, SEED_MODE = False,
      NOTICE_AGE_LIMIT_HOURS = Some 24\<rparr>"

definition example_services :: services where
  "example_services =
     \<lparr>Date_now = 1740873600000, Date_parse = example_parse,
      engine_order = (\<lambda>notices. notices), connect_ok = True,
      news = Body (Some [vi_sem_notice]), exam = Body (Some [holiday_notice]),
      find_ok = True, insert_ok = True, send_result = Delivered, disconnect_ok = True\<rparr>"

definition example_world :: world where
  "example_world = \<lparr>db = [], existingIds = {}, trace = []\<rparr>"

text \<open>A notice as the upstream site sometimes delivers it, with an empty title, and the
  answers of a day on which it is the only notice.\<close>

definition untitled_notice :: notice where
  "untitled_notice =
     \<lparr>id_n = IdStr (js ''77777''), title = [], date = js ''2025-03-02'',
      content = js ''circular.pdf''\<rparr>"

definition untitled_services :: services where
  "untitled_services = example_services\<lparr>news := Body (Some [untitled_notice]), exam := Body None\<rparr>"

section \<open>Properties\<close>

lemmas regex_eval =
  test_def js_def lit_def seqs_def sixth_def CRITICAL_PATTERNS_def GENERIC_EXAM_FORM_def
  EXCLUDE_SEMESTERS_def is_space_def is_line_terminator_def is_word_char_def canonicalize_def

lemmas example_defs =
  vi_sem_notice_def holiday_notice_def vi_sem_revised_def vi_sem_numeric_def example_parse_def
  example_config_def example_services_def example_world_def untitled_notice_def
  untitled_services_def

subsection \<open>Content filter\<close>

lemma vi_sem_explicit: "test (CRITICAL_PATTERNS ! 3) (title vi_sem_notice)"
  by (simp add: regex_eval vi_sem_notice_def)

lemma vi_sem_excluded: "test EXCLUDE_SEMESTERS (title vi_sem_notice)"
  by (simp add: regex_eval vi_sem_notice_def)

lemma holiday_no_tier:
  "\<not> list_ex (\<lambda>r. test r (title holiday_notice)) CRITICAL_PATTERNS \<and>
   \<not> test GENERIC_EXAM_FORM (title holiday_notice)"
  by (simp add: regex_eval holiday_notice_def)

text \<open>
  C1. The content filter classifies a title as critical exactly when one of the four
  explicit patterns matches it, or the generic exam-form pattern matches it and the
  excluded-semester pattern does not. So an explicit match is critical even when the
  exclusion pattern matches too, and a title that matches neither tier is not critical.
  The pattern filter of the older script keeps exactly the notices the class approves.
\<close>

theorem ContentFilter_check_two_tier:
  "(ContentFilter_check n \<longleftrightarrow>
      (\<exists>r \<in> set CRITICAL_PATTERNS. test r (title n)) \<or>
      (test GENERIC_EXAM_FORM (title n) \<and> \<not> test EXCLUDE_SEMESTERS (title n)))
   \<and> length CRITICAL_PATTERNS = 4
   \<and> ((\<exists>r \<in> set CRITICAL_PATTERNS. test r (title n)) \<and> test EXCLUDE_SEMESTERS (title n)
        \<longrightarrow> ContentFilter_check n)
   \<and> (\<not> (\<exists>r \<in> set CRITICAL_PATTERNS. test r (title n)) \<and> \<not> test GENERIC_EXAM_FORM (title n)
        \<longrightarrow> \<not> ContentFilter_check n)
   \<and> checkNews_relevant ns = filter ContentFilter_check ns"
proof -
  have "checkNews_relevant ns = filter ContentFilter_check ns"
    by (simp add: checkNews_relevant_def ContentFilter_check_def [abs_def])
  then show ?thesis
    by (simp add: ContentFilter_check_def Let_def list_ex_iff CRITICAL_PATTERNS_def)
qed

theorem ContentFilter_check_two_tier_witness:
  "(\<exists>r \<in> set CRITICAL_PATTERNS. test r (title vi_sem_notice)) \<and>
   test EXCLUDE_SEMESTERS (title vi_sem_notice) \<and>
   ContentFilter_check vi_sem_notice \<and>
   \<not> (\<exists>r \<in> set CRITICAL_PATTERNS. test r (title holiday_notice)) \<and>
   \<not> test GENERIC_EXAM_FORM (title holiday_notice) \<and>
   \<not> ContentFilter_check holiday_notice"
proof -
  have "CRITICAL_PATTERNS ! 3 \<in> set CRITICAL_PATTERNS"
    by (simp add: CRITICAL_PATTERNS_def)
  with vi_sem_explicit have explicit: "\<exists>r \<in> set CRITICAL_PATTERNS. test r (title vi_sem_notice)"
    by blast
  have neither:
    "\<not> (\<exists>r \<in> set CRITICAL_PATTERNS. test r (title holiday_notice))"
    "\<not> test GENERIC_EXAM_FORM (title holiday_notice)"
    using holiday_no_tier by (simp_all add: list_ex_iff)
  from explicit vi_sem_excluded neither
    ContentFilter_check_two_tier [of vi_sem_notice]
    ContentFilter_check_two_tier [of holiday_notice]
  show ?thesis by blast
qed

subsection \<open>Merging the two sources\<close>

lemma map_of_Map_set: "map_of (Map_set m k v) = (map_of m)(k \<mapsto> v)"
  by (induction m k v rule: Map_set.induct) (auto simp: fun_upd_twist)

lemma keys_Map_set: "fst ` set (Map_set m k v) = insert k (fst ` set m)"
  by (induction m k v rule: Map_set.induct) auto

lemma distinct_Map_set: "distinct (map fst m) \<Longrightarrow> distinct (map fst (Map_set m k v))"
  by (induction m k v rule: Map_set.induct) (auto simp: keys_Map_set)

lemma entries_Map_set: "set (Map_set m k v) \<subseteq> insert (k, v) (set m)"
  by (induction m k v rule: Map_set.induct) auto

lemma Map_set_all_facts:
  "distinct (map fst m) \<Longrightarrow>
     distinct (map fst (Map_set_all m es)) \<and>
     fst ` set (Map_set_all m es) = fst ` set m \<union> fst ` set es \<and>
     set (Map_set_all m es) \<subseteq> set m \<union> set es \<and>
     map_of (Map_set_all m es) = map_of m ++ map_of (rev es)"
proof (induction es arbitrary: m)
  case Nil
  then show ?case by (simp add: Map_set_all_def)
next
  case (Cons e es)
  obtain k v where e: "e = (k, v)" by (cases e)
  have d: "distinct (map fst (Map_set m k v))" using Cons.prems by (rule distinct_Map_set)
  have b: "Map_set_all m (e # es) = Map_set_all (Map_set m k v) es"
    by (simp add: Map_set_all_def e)
  from Cons.IH[OF d] show ?case
    unfolding b using entries_Map_set[of m k v]
    by (auto simp: keys_Map_set map_of_Map_set e map_add_def fun_eq_iff split: option.splits)
qed

lemma find_rev_split:
  "find P (rev xs) = Some x \<Longrightarrow>
     \<exists>before after. xs = before @ x # after \<and> (\<forall>y \<in> set after. \<not> P y)"
proof (induction xs rule: rev_induct)
  case Nil
  then show ?case by simp
next
  case (snoc y ys)
  show ?case
  proof (cases "P y")
    case True
    with snoc.prems have "x = y" by simp
    then have "ys @ [y] = ys @ x # [] \<and> (\<forall>y \<in> set []. \<not> P y)" by simp
    then show ?thesis by blast
  next
    case False
    with snoc.prems have "find P (rev ys) = Some x" by simp
    from snoc.IH[OF this] obtain b a where ba: "ys = b @ x # a" "\<forall>y \<in> set a. \<not> P y"
      by blast
    then have "ys @ [y] = b @ x # (a @ [y]) \<and> (\<forall>z \<in> set (a @ [y]). \<not> P z)"
      using False by simp
    then show ?thesis by blast
  qed
qed

lemma map_of_keyed: "map_of (map (\<lambda>item. (f item, item)) xs) k = find (\<lambda>item. f item = k) xs"
  by (induction xs) auto

lemma merge_unique_facts:
  "distinct (map id_n (merge_unique newsData examData))"
  "id_n ` set (merge_unique newsData examData) = id_n ` set (newsData @ examData)"
  "set (merge_unique newsData examData) \<subseteq> set (newsData @ examData)"
  "x \<in> set (merge_unique newsData examData) \<Longrightarrow>
     \<exists>before after. newsData @ examData = before @ x # after \<and> id_n x \<notin> id_n ` set after"
proof -
  define all where "all = newsData @ examData"
  define es where "es = map (\<lambda>item. (id_n item, item)) all"
  define m where "m = new_Map es"
  have out: "merge_unique newsData examData = map snd m"
    by (simp add: merge_unique_def m_def es_def all_def)
  have facts: "distinct (map fst m)" "fst ` set m = fst ` set es" "set m \<subseteq> set es"
    "map_of m = map_of (rev es)"
    using Map_set_all_facts[of "[]" es] by (simp_all add: m_def new_Map_def)
  have keyed: "\<forall>(k, v) \<in> set m. k = id_n v" using facts(3) by (auto simp: es_def)
  have fst_snd: "map fst m = map id_n (map snd m)" using keyed by (induction m) auto
  show "distinct (map id_n (merge_unique newsData examData))"
    using facts(1) fst_snd by (simp add: out)
  have "set (map id_n (map snd m)) = set (map fst m)" by (simp only: fst_snd)
  then have "id_n ` set (map snd m) = fst ` set m" by (simp only: set_map)
  also have "\<dots> = id_n ` set all" using facts(2) by (force simp: es_def)
  finally show "id_n ` set (merge_unique newsData examData) = id_n ` set (newsData @ examData)"
    by (simp add: out all_def)
  show "set (merge_unique newsData examData) \<subseteq> set (newsData @ examData)"
    using facts(3) by (auto simp: es_def out all_def)
  show "\<exists>before after. newsData @ examData = before @ x # after \<and> id_n x \<notin> id_n ` set after"
    if "x \<in> set (merge_unique newsData examData)"
  proof -
    from that obtain k where "(k, x) \<in> set m" by (auto simp: out)
    with keyed have kx: "(id_n x, x) \<in> set m" by auto
    with facts(1) have "map_of m (id_n x) = Some x" by simp
    then have "map_of (rev es) (id_n x) = Some x" by (simp add: facts(4))
    then have "find (\<lambda>item. id_n item = id_n x) (rev all) = Some x"
      by (simp add: es_def rev_map map_of_keyed)
    from find_rev_split[OF this] show ?thesis by (force simp: all_def)
  qed
qed

text \<open>
  C3. Whatever the two source lists are, the merged list has no two notices with the same
  id, its ids are exactly the ids of the two sources (so each occurred in one of them),
  each notice in it is one of the fetched records, and it is the last record with its id
  in the concatenation of the news list and the exam list.
\<close>

theorem merge_unique_dedup:
  "distinct (map id_n (merge_unique newsData examData)) \<and>
   id_n ` set (merge_unique newsData examData) = id_n ` set (newsData @ examData) \<and>
   set (merge_unique newsData examData) \<subseteq> set (newsData @ examData) \<and>
   (\<forall>x \<in> set (merge_unique newsData examData).
      \<exists>before after. newsData @ examData = before @ x # after \<and> id_n x \<notin> id_n ` set after) \<and>
   (news sv = Body n \<and> exam sv = Body e \<longrightarrow>
      fetchNotices sv w = Returns (merge_unique (data_or_empty n) (data_or_empty e)) w)"
  using merge_unique_facts(1-3) [of newsData examData]
    merge_unique_facts(4) [where newsData = newsData and examData = examData]
  by (simp add: fetchNotices_def)

theorem merge_unique_dedup_witness:
  "merge_unique [vi_sem_notice, holiday_notice] [vi_sem_revised] = [vi_sem_revised, holiday_notice] \<and>
   (\<exists>before after. [vi_sem_notice, holiday_notice] @ [vi_sem_revised] = before @ vi_sem_revised # after
       \<and> id_n vi_sem_revised \<notin> id_n ` set after) \<and>
   fetchNotices example_services example_world =
     Returns [vi_sem_notice, holiday_notice] example_world"
proof -
  have out: "merge_unique [vi_sem_notice, holiday_notice] [vi_sem_revised] =
               [vi_sem_revised, holiday_notice]"
    by (simp add: merge_unique_def new_Map_def Map_set_all_def example_defs js_def)
  have fetched: "merge_unique [vi_sem_notice] [holiday_notice] = [vi_sem_notice, holiday_notice]"
    by (simp add: merge_unique_def new_Map_def Map_set_all_def example_defs js_def)
  have sv: "news example_services = Body (Some [vi_sem_notice]) \<and>
            exam example_services = Body (Some [holiday_notice])"
    by (simp add: example_services_def)
  have member: "vi_sem_revised \<in> set (merge_unique [vi_sem_notice, holiday_notice] [vi_sem_revised])"
    by (simp add: out)
  from merge_unique_dedup [of "[vi_sem_notice, holiday_notice]" "[vi_sem_revised]"
         example_services "Some [vi_sem_notice]" "Some [holiday_notice]" example_world]
    member sv fetched
  show ?thesis by (simp add: out data_or_empty_def)
qed

subsection \<open>The filter chain\<close>

lemma check_each_keep: "fst (check_each chk ss n) = (\<forall>s \<in> set ss. chk s n)"
  by (induction ss) (auto split: prod.splits)

lemma check_each_called:
  "snd (check_each chk ss n) = takeWhile (\<lambda>s. chk s n) ss @ take 1 (dropWhile (\<lambda>s. chk s n) ss)"
  by (induction ss) (auto split: prod.splits)

lemma applyFilters_results:
  "fst (applyFilters chk ss ns) = filter (\<lambda>n. \<forall>s \<in> set ss. chk s n) ns"
  by (induction ns) (auto split: prod.splits simp: check_each_keep[symmetric])

lemma applyFilters_calls:
  "snd (applyFilters chk ss ns) =
     concat (map (\<lambda>n. map (\<lambda>s. (s, n)) (snd (check_each chk ss n))) ns)"
  by (induction ns) (auto split: prod.splits)

text \<open>
  C4. For any strategies with any \<open>check\<close>, a notice is in the list \<open>applyFilters\<close>
  returns exactly when it is one of the given notices and every strategy approves it. The
  calls of \<open>check\<close> made for a notice are the strategies up to and including the first
  that rejects it, and none after. Any rearrangement of the strategy list gives the same
  list of kept notices.
\<close>

theorem applyFilters_strict_and:
  "(n \<in> set (fst (applyFilters chk strategies notices)) \<longleftrightarrow>
      n \<in> set notices \<and> (\<forall>s \<in> set strategies. chk s n))
   \<and> fst (applyFilters chk strategies notices) =
       filter (\<lambda>n. \<forall>s \<in> set strategies. chk s n) notices
   \<and> snd (applyFilters chk strategies notices) =
       concat (map (\<lambda>n. map (\<lambda>s. (s, n)) (snd (check_each chk strategies n))) notices)
   \<and> (strategies = passed @ rejecting # later \<and> (\<forall>s \<in> set passed. chk s n) \<and> \<not> chk rejecting n
        \<longrightarrow> snd (check_each chk strategies n) = passed @ [rejecting])
   \<and> ((\<forall>s \<in> set strategies. chk s n) \<longrightarrow> snd (check_each chk strategies n) = strategies)
   \<and> (mset strategies' = mset strategies
        \<longrightarrow> fst (applyFilters chk strategies' notices) = fst (applyFilters chk strategies notices))"
proof -
  have perm: "fst (applyFilters chk strategies' notices) = fst (applyFilters chk strategies notices)"
    if "mset strategies' = mset strategies"
  proof -
    from that have "set strategies' = set strategies" by (rule mset_eq_setD)
    then show ?thesis by (simp add: applyFilters_results)
  qed
  have short: "snd (check_each chk strategies n) = passed @ [rejecting]"
    if "strategies = passed @ rejecting # later" "\<forall>s \<in> set passed. chk s n" "\<not> chk rejecting n"
    using that by (simp add: check_each_called takeWhile_append2 dropWhile_append2)
  have full: "snd (check_each chk strategies n) = strategies" if "\<forall>s \<in> set strategies. chk s n"
    using that by (induction strategies) (auto split: prod.splits)
  show ?thesis
    using perm short full by (simp add: applyFilters_results applyFilters_calls)
qed

theorem applyFilters_strict_and_witness:
  "fst (applyFilters (check example_parse {})
          [TimeFilter \<lparr>cutoffDate = Some 1740787200000\<rparr>, PersistenceFilter]
          [holiday_notice, vi_sem_notice]) = [vi_sem_notice] \<and>
   snd (check_each (check example_parse {})
          [TimeFilter \<lparr>cutoffDate = Some 1740787200000\<rparr>, PersistenceFilter] holiday_notice)
     = [TimeFilter \<lparr>cutoffDate = Some 1740787200000\<rparr>] \<and>
   snd (check_each (check example_parse {})
          [TimeFilter \<lparr>cutoffDate = Some 1740787200000\<rparr>, PersistenceFilter] vi_sem_notice)
     = [TimeFilter \<lparr>cutoffDate = Some 1740787200000\<rparr>, PersistenceFilter] \<and>
   fst (applyFilters (check example_parse {})
          [PersistenceFilter, TimeFilter \<lparr>cutoffDate = Some 1740787200000\<rparr>]
          [holiday_notice, vi_sem_notice]) = [vi_sem_notice]"
proof -
  let ?t = "TimeFilter \<lparr>cutoffDate = Some 1740787200000\<rparr>"
  let ?chk = "check example_parse {}"
  have old: "\<not> ?chk ?t holiday_notice"
    by (simp add: TimeFilter_check_def example_defs js_def)
  have new: "\<forall>s \<in> set [?t, PersistenceFilter]. ?chk s vi_sem_notice"
    by (simp add: TimeFilter_check_def MongoPersistence_check_def example_defs js_def)
  have split: "[?t, PersistenceFilter] = [] @ ?t # [PersistenceFilter] \<and> (\<forall>s \<in> set []. ?chk s holiday_notice)"
    by simp
  have perm: "mset [PersistenceFilter, ?t] = mset [?t, PersistenceFilter]"
    by simp
  have holiday: "\<not> (\<forall>s \<in> set [?t, PersistenceFilter]. ?chk s holiday_notice)"
    using old by simp
  have kept: "filter (\<lambda>n. \<forall>s \<in> set [?t, PersistenceFilter]. ?chk s n) [holiday_notice, vi_sem_notice]
                = [vi_sem_notice]"
    using holiday new by simp
  from applyFilters_strict_and [of holiday_notice ?chk "[?t, PersistenceFilter]"
         "[holiday_notice, vi_sem_notice]" "[]" ?t "[PersistenceFilter]" "[PersistenceFilter, ?t]"]
       applyFilters_strict_and [of vi_sem_notice ?chk "[?t, PersistenceFilter]"
         "[holiday_notice, vi_sem_notice]" "[]" ?t "[PersistenceFilter]" "[PersistenceFilter, ?t]"]
       old new split perm kept
  show ?thesis by simp
qed

subsection \<open>Persistence strategy\<close>

lemma saveSentNotices_cases:
  "saveSentNotices sv notices w =
     Returns ()
       (if notices = [] then emit (SaveSentNotices notices) w
        else case insert_error sv notices w of
               None \<Rightarrow> (emit (SaveSentNotices notices) w)
                 \<lparr>db := fst (Notice_insertMany (insert_ok sv) (map operation notices) (db w)),
                  existingIds := existingIds w \<union> set (map (\<lambda>n. String (id_n n)) notices)\<rparr>
             | Some error \<Rightarrow> emit (Console (ErrorSavingToDB error))
                 ((emit (SaveSentNotices notices) w)
                    \<lparr>db := fst (Notice_insertMany (insert_ok sv) (map operation notices) (db w))\<rparr>))"
  by (simp add: saveSentNotices_def insert_error_def emit_def Let_def split: prod.splits option.splits)

lemma insert_unordered_keeps: "set coll \<subseteq> set (fst (insert_unordered ds coll))"
  by (induction ds coll rule: insert_unordered.induct) auto

lemma insert_unordered_has:
  "d \<in> set ds \<Longrightarrow> noticeId d \<in> noticeId ` set (fst (insert_unordered ds coll))"
proof (induction ds coll rule: insert_unordered.induct)
  case (1 coll)
  then show ?case by simp
next
  case (2 x ds coll)
  show ?case
  proof (cases "d = x")
    case True
    show ?thesis
    proof (cases "noticeId x \<in> set (map noticeId coll)")
      case True
      then have "noticeId x \<in> noticeId ` set coll" by simp
      then have "noticeId x \<in> noticeId ` set (fst (insert_unordered ds coll))"
        using insert_unordered_keeps[of coll ds] by blast
      with True \<open>d = x\<close> show ?thesis by simp
    next
      case False
      have "x \<in> set (coll @ [x])" by simp
      then have "x \<in> set (fst (insert_unordered ds (coll @ [x])))"
        using insert_unordered_keeps[of "coll @ [x]" ds] by blast
      with False \<open>d = x\<close> show ?thesis by simp
    qed
  next
    case False
    with "2.prems" have "d \<in> set ds" by simp
    with "2.IH" show ?thesis by auto
  qed
qed

text \<open>
  C6, as the code has it. After a \<open>saveSentNotices\<close> of one notice whose bulk insert
  raised no error, the check of that notice is false in the same run, and the store holds
  its record when the schema accepts it (non-empty id, title and date). In any later
  state, a preload that succeeds on a list containing the notice, against a store that
  holds its record, makes the check false. When the insert raises an error the strategy
  logs it and leaves its set alone, so the check can still be true.
\<close>

theorem save_then_check_rejects:
  "(insert_error sv [n] w = None \<longrightarrow>
      \<not> MongoPersistence_check (existingIds (final (saveSentNotices sv [n] w))) n)
   \<and> (insert_error sv [n] w = None \<and> valid_doc (operation n) \<longrightarrow>
        String (id_n n) \<in> noticeId ` set (db (final (saveSentNotices sv [n] w))))
   \<and> (n \<in> set notices \<and> find_ok sv' \<and> String (id_n n) \<in> noticeId ` set (db w') \<longrightarrow>
        \<not> MongoPersistence_check (existingIds (final (preload sv' notices w'))) n)"
proof -
  have 1: "\<not> MongoPersistence_check (existingIds (final (saveSentNotices sv [n] w))) n"
    if "insert_error sv [n] w = None"
    using that by (simp add: saveSentNotices_cases MongoPersistence_check_def)
  have 2: "String (id_n n) \<in> noticeId ` set (db (final (saveSentNotices sv [n] w)))"
    if "insert_error sv [n] w = None" "valid_doc (operation n)"
  proof -
    from that(1) have ok: "insert_ok sv"
      by (auto simp: insert_error_def Notice_insertMany_def split: if_splits)
    have "noticeId (operation n) \<in> noticeId ` set (fst (insert_unordered [operation n] (db w)))"
      by (rule insert_unordered_has) simp
    then show ?thesis using that ok
      by (simp add: saveSentNotices_cases Notice_insertMany_def operation_def emit_def
            split: prod.splits)
  qed
  have 3: "\<not> MongoPersistence_check (existingIds (final (preload sv' notices w'))) n"
    if "n \<in> set notices" "find_ok sv'" "String (id_n n) \<in> noticeId ` set (db w')"
  proof -
    from that(3) obtain d where d: "d \<in> set (db w')" "noticeId d = String (id_n n)" by auto
    with that(1) have "d \<in> set (Notice_find (map (\<lambda>n. String (id_n n)) notices) (db w'))"
      by (simp add: Notice_find_def)
    then have "String (id_n n) \<in> set (map noticeId
                 (Notice_find (map (\<lambda>n. String (id_n n)) notices) (db w')))"
      using d(2) by force
    then show ?thesis using that(1,2)
      by (auto simp: preload_def MongoPersistence_check_def)
  qed
  show ?thesis using 1 2 3 by blast
qed


theorem save_then_check_rejects_witness:
  "insert_error example_services [vi_sem_notice] example_world = None \<and>
   valid_doc (operation vi_sem_notice) \<and>
   \<not> MongoPersistence_check
       (existingIds (final (saveSentNotices example_services [vi_sem_notice] example_world)))
       vi_sem_notice \<and>
   \<not> MongoPersistence_check
       (existingIds (final (preload example_services [holiday_notice, vi_sem_notice]
          \<lparr>db = db (final (saveSentNotices example_services [vi_sem_notice] example_world)),
           existingIds = {}, trace = []\<rparr>)))
       vi_sem_notice"
proof -
  let ?later = "\<lparr>db = db (final (saveSentNotices example_services [vi_sem_notice] example_world)),
           existingIds = {}, trace = []\<rparr>"
  have err: "insert_error example_services [vi_sem_notice] example_world = None"
    by (simp add: insert_error_def Notice_insertMany_def operation_def valid_doc_def
          example_defs example_world_def js_def)
  have valid: "valid_doc (operation vi_sem_notice)"
    by (simp add: operation_def valid_doc_def example_defs js_def)
  have pre: "vi_sem_notice \<in> set [holiday_notice, vi_sem_notice] \<and> find_ok example_services"
    by (simp add: example_services_def)
  from save_then_check_rejects [of example_services vi_sem_notice example_world
         "[holiday_notice, vi_sem_notice]" example_services ?later] err valid pre
  show ?thesis by simp
qed

text \<open>The store cannot be reached when the notice is saved: the call returns, the error is
  logged, and the check of the notice is still true.\<close>

theorem save_then_check_counterexample:
  "saveSentNotices (example_services\<lparr>insert_ok := False\<rparr>) [vi_sem_notice] example_world =
     Returns ()
       \<lparr>db = [], existingIds = {},
        trace = [SaveSentNotices [vi_sem_notice], Console (ErrorSavingToDB MongoConnectionFailed)]\<rparr> \<and>
   MongoPersistence_check
     (existingIds (final (saveSentNotices (example_services\<lparr>insert_ok := False\<rparr>)
        [vi_sem_notice] example_world))) vi_sem_notice"
  by (simp add: saveSentNotices_def Notice_insertMany_def emit_def example_services_def
        example_world_def MongoPersistence_check_def)

text \<open>
  C10. \<open>saveSentNotices\<close> always returns. When the bulk insert throws on a non-empty
  batch, the error is logged and the set of known ids is what it was, so every check
  answers as before the call. The witness is a batch whose two notices have the ids
  \<^verbatim>\<open>99999\<close> and \<^verbatim>\<open>"99999"\<close>: the first record is inserted, the second is a duplicate,
  the insert throws, and the check of the first notice is true although its record is in
  the store.
\<close>

theorem saveSentNotices_swallows_errors:
  "(\<exists>w'. saveSentNotices sv notices w = Returns () w') \<and>
   (notices \<noteq> [] \<and> insert_error sv notices w = Some error \<longrightarrow>
      existingIds (final (saveSentNotices sv notices w)) = existingIds w \<and>
      Console (ErrorSavingToDB error) \<in> set (trace (final (saveSentNotices sv notices w))) \<and>
      MongoPersistence_check (existingIds (final (saveSentNotices sv notices w))) n =
        MongoPersistence_check (existingIds w) n)"
  by (simp add: saveSentNotices_cases emit_def)

theorem saveSentNotices_swallows_errors_witness:
  "insert_error example_services [vi_sem_numeric, vi_sem_notice] example_world = Some BulkWriteError \<and>
   existingIds (final (saveSentNotices example_services [vi_sem_numeric, vi_sem_notice] example_world)) = {} \<and>
   db (final (saveSentNotices example_services [vi_sem_numeric, vi_sem_notice] example_world))
     = [operation vi_sem_numeric] \<and>
   MongoPersistence_check
     (existingIds (final (saveSentNotices example_services [vi_sem_numeric, vi_sem_notice] example_world)))
     vi_sem_numeric"
proof -
  have ins: "Notice_insertMany True (map operation [vi_sem_numeric, vi_sem_notice]) [] =
           ([operation vi_sem_numeric], Some BulkWriteError)"
    by (simp add: Notice_insertMany_def operation_def valid_doc_def vi_sem_numeric_def
          vi_sem_notice_def decimal.simps js_def)
  then have err: "insert_error example_services [vi_sem_numeric, vi_sem_notice] example_world =
           Some BulkWriteError"
    by (simp add: insert_error_def example_services_def example_world_def)
  have dbs: "db (final (saveSentNotices example_services [vi_sem_numeric, vi_sem_notice] example_world))
     = [operation vi_sem_numeric]"
    using ins err by (simp add: saveSentNotices_cases emit_def example_services_def example_world_def)
  from saveSentNotices_swallows_errors [of example_services "[vi_sem_numeric, vi_sem_notice]"
         example_world BulkWriteError vi_sem_numeric] err dbs
  show ?thesis by (simp add: example_world_def MongoPersistence_check_def)
qed

subsection \<open>The run\<close>

lemma and_then_assoc:
  "and_then (and_then m f) g = and_then m (\<lambda>a w. and_then (f a w) g)"
  by (cases m) simp_all

lemma run_try_phases:
  "run_try cfg sv strategies w =
     and_then (prepare cfg sv w) (\<lambda>u w3.
       if SEED_MODE cfg then seed_branch sv u w3 else notify_branch cfg sv strategies u w3)"
  unfolding run_try_def prepare_def seed_branch_def notify_branch_def Let_def and_then_assoc
  by simp




lemma prepare_cases:
  "prepare cfg sv w =
     (if MONGO_URI cfg = None \<or> MONGO_URI cfg = Some [] then Throws MongoUriNotDefined w
      else if \<not> connect_ok sv
      then Throws MongoConnectionFailed (emit (Console MongoConnectionFailure) w)
      else case (news sv, exam sv) of
        (Body a, Body b) \<Rightarrow>
          (let u = sort_notices sv (merge_unique (data_or_empty a) (data_or_empty b));
               w1 = emit (Console MongoConnected) w
           in if u = [] then Returns u w1
              else if find_ok sv
              then Returns u (w1\<lparr>existingIds :=
                     set (map noticeId (Notice_find (map (\<lambda>n. String (id_n n)) u) (db w)))\<rparr>)
              else Throws QueryFailed w1)
      | _ \<Rightarrow> Throws RequestFailed (emit (Console MongoConnected) w))"
  by (simp add: prepare_def init_def connectDB_def fetchNotices_def preload_def emit_def Let_def
        split: response.splits)

lemma prepare_Returns:
  assumes "prepare cfg sv w = Returns u w3"
  shows "db w3 = db w" "trace w3 = trace w @ [Console MongoConnected]"
    "\<exists>a b. news sv = Body a \<and> exam sv = Body b \<and>
        u = sort_notices sv (merge_unique (data_or_empty a) (data_or_empty b))"
    "u \<noteq> [] \<Longrightarrow> existingIds w3 = set (map noticeId (Notice_find (map (\<lambda>n. String (id_n n)) u) (db w)))"
  using assms
  by (auto simp: prepare_cases emit_def Let_def split: if_splits response.splits)

lemma prepare_Throws:
  assumes "prepare cfg sv w = Throws e w'"
  shows "db w' = db w"
    "trace w' = trace w \<or> trace w' = trace w @ [Console MongoConnectionFailure] \<or>
     trace w' = trace w @ [Console MongoConnected]"
  using assms
  by (auto simp: prepare_cases emit_def Let_def split: if_splits response.splits)

lemma prepare_not_Exits: "prepare cfg sv w \<noteq> Exits c w'"
  by (auto simp: prepare_cases emit_def Let_def split: if_splits response.splits)


lemma run_cases:
  "run cfg sv ss w =
     (case run_try cfg sv ss w of
        Returns _ x \<Rightarrow>
          (if disconnect_ok sv then Returns () (emit (Console MongoDisconnected) x)
           else Throws DisconnectFailed x)
      | Throws e x \<Rightarrow> Exits 1 (emit (ProcessExit 1) (emit (Console (CriticalError e)) x))
      | Exits c x \<Rightarrow> Exits c x)"
  by (simp add: run_def cleanup_def disconnectDB_def process_exit_def split: outcome.splits)

lemma saveSentNotices_trace:
  "set (trace (final (saveSentNotices sv ns w))) \<subseteq>
     set (trace w) \<union> {SaveSentNotices ns} \<union> range Console"
  "SaveSentNotices ns \<in> set (trace (final (saveSentNotices sv ns w)))"
  by (auto simp: saveSentNotices_cases emit_def split: option.splits)

lemma seed_branch_cases:
  "seed_branch sv u w3 =
     Returns ()
       (if filter (\<lambda>n. String (id_n n) \<notin> existingIds w3) u = []
        then emit (Console BaselineExists) (emit (Console SeedModeActive) w3)
        else emit (Console (SeedingComplete
                    (length (filter (\<lambda>n. String (id_n n) \<notin> existingIds w3) u))))
               (final (saveSentNotices sv (filter (\<lambda>n. String (id_n n) \<notin> existingIds w3) u)
                  (emit (Console SeedModeActive) w3))))"
  by (simp add: seed_branch_def Let_def saveSentNotices_cases emit_def)

lemma seed_branch_trace:
  "set (trace (final (seed_branch sv u w3))) \<subseteq>
     set (trace w3) \<union> range SaveSentNotices \<union> range Console"
proof (cases "filter (\<lambda>n. String (id_n n) \<notin> existingIds w3) u = []")
  case True
  then show ?thesis by (auto simp: seed_branch_cases emit_def)
next
  case False
  let ?ns = "filter (\<lambda>n. String (id_n n) \<notin> existingIds w3) u"
  have "set (trace (final (saveSentNotices sv ?ns (emit (Console SeedModeActive) w3)))) \<subseteq>
          set (trace (emit (Console SeedModeActive) w3)) \<union> {SaveSentNotices ?ns} \<union> range Console"
    by (rule saveSentNotices_trace)
  then show ?thesis using False by (auto simp: seed_branch_cases emit_def)
qed

lemma notify_branch_cases:
  "notify_branch cfg sv ss u w3 =
     (let relevant = fst (applyFilters (check (Date_parse sv) (existingIds w3)) ss u);
          calls = snd (applyFilters (check (Date_parse sv) (existingIds w3)) ss u);
          w4 = w3\<lparr>trace := trace w3 @ ApplyFilters u # map (\<lambda>(s, n). Check s n) calls\<rparr>;
          mail = \<lparr>critical = list_ex snd (map (\<lambda>n. (n, ContentFilter_check n)) relevant),
                  test_prefix = TEST_MODE cfg,
                  cards = map (\<lambda>n. (n, ContentFilter_check n)) relevant\<rparr>;
          w5 = emit (Send mail) w4
      in if relevant = [] then Returns () (emit (Console NoNewNotices) w4)
         else case send_result sv of
                Delivered \<Rightarrow>
                  if \<not> TEST_MODE cfg
                  then saveSentNotices sv relevant (emit (Console EmailSent) w5)
                  else Returns () (emit (Console TestModeNotSaving) (emit (Console EmailSent) w5))
              | ErrorField \<Rightarrow>
                  Throws EmailSendingFailed
                    (emit (Console (EmailFailure EmailSendingFailed))
                       (emit (Console ResendApiError) w5))
              | SendThrows \<Rightarrow> Throws ResendThrew (emit (Console (EmailFailure ResendThrew)) w5))"
  by (simp add: notify_branch_def applyFilters_step_def sendEmail_def Let_def
        split: prod.splits delivery.splits)


lemma vi_sem_critical: "ContentFilter_check vi_sem_notice"
  by (simp add: ContentFilter_check_def regex_eval vi_sem_notice_def)

lemma Notice_find_simps:
  "Notice_find ids [] = []"
  "Notice_find ids (d # coll) =
     (if noticeId d \<in> set ids then d # Notice_find ids coll else Notice_find ids coll)"
  by (simp_all add: Notice_find_def)

lemmas run_eval = main_def main_strategies_def run_cases run_try_phases prepare_cases
  notify_branch_cases seed_branch_cases saveSentNotices_cases insert_error_def Notice_insertMany_def
  Notice_find_simps operation_def valid_doc_def
  merge_unique_def new_Map_def Map_set_all_def data_or_empty_def sort_notices_def comes_after_def
  new_TimeFilterStrategy_def TimeClip_def TimeFilter_check_def MongoPersistence_check_def
  emit_def Let_def

lemma example_fetch_fails:
  "main example_config (example_services\<lparr>news := Rejected\<rparr>) [] =
     Exits 1 \<lparr>db = [], existingIds = {},
              trace = [Console MongoConnected, Console (CriticalError RequestFailed), ProcessExit 1]\<rparr>"
  by (simp add: run_eval example_config_def example_services_def js_def)

lemma example_send_fails:
  "main example_config (example_services\<lparr>send_result := ErrorField\<rparr>) [] =
     Exits 1 \<lparr>db = [], existingIds = {},
              trace = [Console MongoConnected,
                       ApplyFilters [holiday_notice, vi_sem_notice],
                       Check (TimeFilter \<lparr>cutoffDate = Some 1740787200000\<rparr>) holiday_notice,
                       Check (TimeFilter \<lparr>cutoffDate = Some 1740787200000\<rparr>) vi_sem_notice,
                       Check PersistenceFilter vi_sem_notice,
                       Send \<lparr>critical = True, test_prefix = False, cards = [(vi_sem_notice, True)]\<rparr>,
                       Console ResendApiError, Console (EmailFailure EmailSendingFailed),
                       Console (CriticalError EmailSendingFailed), ProcessExit 1]\<rparr>"
  by (simp add: run_eval example_defs js_def ContentFilter_check_def regex_eval)

lemma example_normal_run:
  "main example_config example_services [] =
     Returns () \<lparr>db = [operation vi_sem_notice], existingIds = {js ''99999''},
              trace = [Console MongoConnected,
                       ApplyFilters [holiday_notice, vi_sem_notice],
                       Check (TimeFilter \<lparr>cutoffDate = Some 1740787200000\<rparr>) holiday_notice,
                       Check (TimeFilter \<lparr>cutoffDate = Some 1740787200000\<rparr>) vi_sem_notice,
                       Check PersistenceFilter vi_sem_notice,
                       Send \<lparr>critical = True, test_prefix = False, cards = [(vi_sem_notice, True)]\<rparr>,
                       Console EmailSent,
                       SaveSentNotices [vi_sem_notice],
                       Console MongoDisconnected]\<rparr>"
  by (simp add: run_eval example_defs js_def ContentFilter_check_def regex_eval)

lemma example_seed_run:
  "main (example_config\<lparr>SEED_MODE := True\<rparr>) example_services [] =
     Returns () \<lparr>db = [operation holiday_notice, operation vi_sem_notice],
              existingIds = {js ''88888'', js ''99999''},
              trace = [Console MongoConnected, Console SeedModeActive,
                       SaveSentNotices [holiday_notice, vi_sem_notice],
                       Console (SeedingComplete 2),
                       Console MongoDisconnected]\<rparr>"
  by (simp add: run_eval example_defs js_def ContentFilter_check_def regex_eval)


lemma example_connect_fails:
  "main example_config (example_services\<lparr>connect_ok := False\<rparr>) [] =
     Exits 1 \<lparr>db = [], existingIds = {},
              trace = [Console MongoConnectionFailure,
                       Console (CriticalError MongoConnectionFailed), ProcessExit 1]\<rparr>"
  by (simp add: run_eval example_config_def example_services_def js_def)


text \<open>
  C2, at three failing runs. When the fetch fails, when the connection fails, and when the
  delivery fails, the \<^verbatim>\<open>catch\<close> block calls \<^verbatim>\<open>process.exit(1)\<close> and the process
  ends there: the run is an exit with code 1 and the store is never disconnected, also
  where it had been connected. Only a run whose \<^verbatim>\<open>try\<close> block returns reaches the
  cleanup of the \<^verbatim>\<open>finally\<close> block.
\<close>

theorem run_failure_skips_cleanup:
  "main example_config (example_services\<lparr>news := Rejected\<rparr>) [] =
     Exits 1 \<lparr>db = [], existingIds = {},
              trace = [Console MongoConnected, Console (CriticalError RequestFailed), ProcessExit 1]\<rparr> \<and>
   main example_config (example_services\<lparr>connect_ok := False\<rparr>) [] =
     Exits 1 \<lparr>db = [], existingIds = {},
              trace = [Console MongoConnectionFailure,
                       Console (CriticalError MongoConnectionFailed), ProcessExit 1]\<rparr> \<and>
   main example_config (example_services\<lparr>send_result := ErrorField\<rparr>) [] =
     Exits 1 (final (main example_config (example_services\<lparr>send_result := ErrorField\<rparr>) [])) \<and>
   Console MongoConnected
     \<in> set (trace (final (main example_config (example_services\<lparr>send_result := ErrorField\<rparr>) []))) \<and>
   Console MongoDisconnected
     \<notin> set (trace (final (main example_config (example_services\<lparr>send_result := ErrorField\<rparr>) []))) \<and>
   Console MongoDisconnected \<in> set (trace (final (main example_config example_services [])))"
  by (simp add: example_fetch_fails example_connect_fails example_send_fails example_normal_run)

lemma Notice_find_ids:
  assumes "k \<in> set ids"
  shows "k \<in> noticeId ` set (Notice_find ids coll) \<longleftrightarrow> k \<in> noticeId ` set coll"
proof
  assume "k \<in> noticeId ` set (Notice_find ids coll)"
  then show "k \<in> noticeId ` set coll" by (auto simp: Notice_find_def)
next
  assume "k \<in> noticeId ` set coll"
  then obtain d where d: "d \<in> set coll" "noticeId d = k" by auto
  with assms have "d \<in> set (Notice_find ids coll)" by (simp add: Notice_find_def)
  with d(2) show "k \<in> noticeId ` set (Notice_find ids coll)" by force
qed

lemma insert_unordered_fresh:
  "distinct (map noticeId ds) \<Longrightarrow> noticeId ` set ds \<inter> noticeId ` set coll = {} \<Longrightarrow>
     insert_unordered ds coll = (coll @ ds, False)"
proof (induction ds arbitrary: coll)
  case Nil
  then show ?case by simp
next
  case (Cons d ds)
  from Cons.prems have fresh: "noticeId d \<notin> noticeId ` set coll" by auto
  from Cons.prems have "distinct (map noticeId ds)"
    "noticeId ` set ds \<inter> noticeId ` set (coll @ [d]) = {}" by auto
  from Cons.IH[OF this] fresh show ?case by simp
qed

lemma seed_run_trace:
  assumes "SEED_MODE cfg"
  shows "set (trace (final (run cfg sv strategies w))) \<subseteq>
           set (trace w) \<union> range SaveSentNotices \<union> range Console \<union> range ProcessExit"
proof (cases "prepare cfg sv w")
  case (Returns u w3)
  with assms have t: "run_try cfg sv strategies w = seed_branch sv u w3"
    by (simp add: run_try_phases)
  show ?thesis
    using seed_branch_trace[of sv u w3] prepare_Returns(2)[OF Returns]
    by (auto simp: run_cases t seed_branch_cases emit_def)
next
  case (Throws e w')
  then have t: "run_try cfg sv strategies w = Throws e w'"
    by (simp add: run_try_phases)
  show ?thesis
    using prepare_Throws(2)[OF Throws] by (auto simp: run_cases t emit_def)
next
  case (Exits c w')
  then show ?thesis by (simp add: prepare_not_Exits)
qed

text \<open>
  C8, as the code has it. A seed-mode run (started with an empty event log) hands no mail
  to the delivery service and never calls \<open>applyFilters\<close> or a \<open>check\<close>. When the
  connection, both fetches and the preload succeed, \<open>saveSentNotices\<close> is called with
  the list of exactly the fetched notices whose id is not yet in the store, with no other
  list, and not at all when that list is empty; the \<^verbatim>\<open>catch\<close> block is not reached, and
  the run returns when the disconnect of the cleanup succeeds and is rejected with the
  error of the disconnect when it fails. When moreover the store accepts the insert, that
  is, it can be reached and those notices have non-empty id, title and date and pairwise
  different id strings, the collection after the run is the collection before it followed
  by the records of exactly those notices.
\<close>


theorem seed_mode_run:
  assumes "SEED_MODE cfg" and "trace w = []"
  shows "(\<forall>m. Send m \<notin> set (trace (final (run cfg sv strategies w)))) \<and>
         (\<forall>ns. ApplyFilters ns \<notin> set (trace (final (run cfg sv strategies w)))) \<and>
         (\<forall>s n. Check s n \<notin> set (trace (final (run cfg sv strategies w)))) \<and>
         (MONGO_URI cfg = Some uri \<and> uri \<noteq> [] \<and> connect_ok sv \<and> news sv = Body a \<and>
          exam sv = Body b \<and> find_ok sv \<and>
          toSeed = filter (\<lambda>n. String (id_n n) \<notin> noticeId ` set (db w))
                     (sort_notices sv
                        (merge_unique (data_or_empty a) (data_or_empty b)))
          \<longrightarrow> (\<forall>ns. SaveSentNotices ns \<in> set (trace (final (run cfg sv strategies w)))
                 \<longleftrightarrow> ns = toSeed \<and> toSeed \<noteq> []) \<and>
              (\<forall>c w'. run cfg sv strategies w \<noteq> Exits c w') \<and>
              (\<exists>w'. run cfg sv strategies w =
                 (if disconnect_ok sv then Returns () w' else Throws DisconnectFailed w')) \<and>
              (insert_ok sv \<and> (\<forall>n \<in> set toSeed. valid_doc (operation n)) \<and>
               distinct (map (\<lambda>n. String (id_n n)) toSeed)
               \<longrightarrow> db (final (run cfg sv strategies w)) = db w @ map operation toSeed))"
  (is "?no_mail \<and> ?no_filter \<and> ?no_check \<and> (?reached \<longrightarrow> ?seeded)")
proof -
  let ?r = "run cfg sv strategies w"
  have quiet: "(\<forall>m. Send m \<notin> set (trace (final ?r))) \<and>
         (\<forall>ns. ApplyFilters ns \<notin> set (trace (final ?r))) \<and>
         (\<forall>s n. Check s n \<notin> set (trace (final ?r)))"
    using seed_run_trace[OF assms(1), of sv strategies w] assms(2) by auto
  have seeded: "(\<forall>ns. SaveSentNotices ns \<in> set (trace (final ?r))
                 \<longleftrightarrow> ns = toSeed \<and> toSeed \<noteq> []) \<and>
              (\<forall>c w'. ?r \<noteq> Exits c w') \<and>
              (\<exists>w'. ?r = (if disconnect_ok sv then Returns () w'
                          else Throws DisconnectFailed w')) \<and>
              (insert_ok sv \<and> (\<forall>n \<in> set toSeed. valid_doc (operation n)) \<and>
               distinct (map (\<lambda>n. String (id_n n)) toSeed)
               \<longrightarrow> db (final ?r) = db w @ map operation toSeed)"
    if h: "MONGO_URI cfg = Some uri" "uri \<noteq> []" "connect_ok sv" "news sv = Body a"
      "exam sv = Body b" "find_ok sv"
      "toSeed = filter (\<lambda>n. String (id_n n) \<notin> noticeId ` set (db w))
                     (sort_notices sv
                        (merge_unique (data_or_empty a) (data_or_empty b)))"
  proof -
    define u where "u = sort_notices sv (merge_unique (data_or_empty a) (data_or_empty b))"
    define w3 where "w3 = (if u = [] then emit (Console MongoConnected) w
       else (emit (Console MongoConnected) w)\<lparr>existingIds :=
          set (map noticeId (Notice_find (map (\<lambda>n. String (id_n n)) u) (db w)))\<rparr>)"
    have p: "prepare cfg sv w = Returns u w3"
      using h(1-6) by (simp add: prepare_cases u_def w3_def Let_def)
    have w3: "db w3 = db w" "trace w3 = [Console MongoConnected]"
      using assms(2) by (simp_all add: w3_def emit_def)
    have known: "String (id_n n) \<notin> existingIds w3 \<longleftrightarrow> String (id_n n) \<notin> noticeId ` set (db w)"
      if "n \<in> set u" for n
    proof -
      from that have "String (id_n n) \<in> set (map (\<lambda>n. String (id_n n)) u)" by simp
      from Notice_find_ids[OF this, of "db w"] that show ?thesis
        by (auto simp: w3_def emit_def)
    qed
    have "filter (\<lambda>n. String (id_n n) \<notin> existingIds w3) u =
            filter (\<lambda>n. String (id_n n) \<notin> noticeId ` set (db w)) u"
      by (rule filter_cong) (simp_all add: known)
    then have ts: "filter (\<lambda>n. String (id_n n) \<notin> existingIds w3) u = toSeed"
      by (simp add: h(7) u_def)
    have t: "run_try cfg sv strategies w = seed_branch sv u w3"
      using assms(1) p by (simp add: run_try_phases)
    let ?w4 = "emit (Console SeedModeActive) w3"
    show ?thesis
    proof (cases "toSeed = []")
      case True
      then show ?thesis
        by (auto simp: run_cases t seed_branch_cases ts emit_def w3)
    next
      case False
      have calls: "set (trace (final (saveSentNotices sv toSeed ?w4))) \<subseteq>
                     set (trace ?w4) \<union> {SaveSentNotices toSeed} \<union> range Console"
        "SaveSentNotices toSeed \<in> set (trace (final (saveSentNotices sv toSeed ?w4)))"
        by (rule saveSentNotices_trace)+
      have fin: "final ?r =
          (if disconnect_ok sv
           then emit (Console MongoDisconnected)
                  (emit (Console (SeedingComplete (length toSeed)))
                     (final (saveSentNotices sv toSeed ?w4)))
           else emit (Console (SeedingComplete (length toSeed)))
                  (final (saveSentNotices sv toSeed ?w4)))"
        "\<forall>c w'. ?r \<noteq> Exits c w'"
        "\<exists>w'. ?r = (if disconnect_ok sv then Returns () w' else Throws DisconnectFailed w')"
        using False by (auto simp: run_cases t seed_branch_cases ts)
      have one: "SaveSentNotices toSeed \<in> set (trace (final ?r))"
        using calls(2) by (simp add: fin(1) emit_def)
      have only: "\<forall>ns. SaveSentNotices ns \<in> set (trace (final ?r)) \<longrightarrow> ns = toSeed"
        using calls(1) w3(2) by (auto simp: fin(1) emit_def split: if_splits)
      have stored: "db (final ?r) = db w @ map operation toSeed"
        if ok: "insert_ok sv" "\<forall>n \<in> set toSeed. valid_doc (operation n)"
          "distinct (map (\<lambda>n. String (id_n n)) toSeed)"
      proof -
        have docs: "filter valid_doc (map operation toSeed) = map operation toSeed"
          using ok(2) by (induction toSeed) auto
        have ids: "map noticeId (map operation toSeed) = map (\<lambda>n. String (id_n n)) toSeed"
          by (simp add: operation_def)
        have d: "distinct (map noticeId (map operation toSeed))"
          using ok(3) by (simp only: ids)
        have f: "noticeId ` set (map operation toSeed) \<inter> noticeId ` set (db w) = {}"
          unfolding h(7) by (auto simp: operation_def)
        have ins: "Notice_insertMany (insert_ok sv) (map operation toSeed) (db ?w4) =
                     (db w @ map operation toSeed, None)"
          using insert_unordered_fresh[OF d f] ok(1)
          by (simp add: Notice_insertMany_def docs emit_def w3)
        have "db (final (saveSentNotices sv toSeed ?w4)) = db w @ map operation toSeed"
          using False ins by (simp add: saveSentNotices_cases insert_error_def emit_def)
        then show ?thesis by (simp add: fin(1) emit_def)
      qed
      from one only fin(2,3) stored False show ?thesis by blast
    qed
  qed
  have "?reached \<longrightarrow> ?seeded"
  proof
    assume reached: ?reached
    show ?seeded by (rule seeded) (insert reached, blast)+
  qed
  with quiet show ?thesis by simp
qed

lemma example_seed_insert_fails:
  "main (example_config\<lparr>SEED_MODE := True\<rparr>) (example_services\<lparr>insert_ok := False\<rparr>) [] =
     Returns () \<lparr>db = [], existingIds = {},
              trace = [Console MongoConnected, Console SeedModeActive,
                       SaveSentNotices [holiday_notice, vi_sem_notice],
                       Console (ErrorSavingToDB MongoConnectionFailed),
                       Console (SeedingComplete 2),
                       Console MongoDisconnected]\<rparr>"
  by (simp add: run_eval example_defs js_def)

text \<open>A seed-mode run with two fetched notices, none known, and a store that cannot be
  reached when the notices are inserted: the error is logged, the run ends normally and
  the collection is still empty.\<close>

theorem seed_mode_run_counterexample:
  "SEED_MODE (example_config\<lparr>SEED_MODE := True\<rparr>) \<and>
   fetchNotices (example_services\<lparr>insert_ok := False\<rparr>) example_world =
     Returns [vi_sem_notice, holiday_notice] example_world \<and>
   main (example_config\<lparr>SEED_MODE := True\<rparr>) (example_services\<lparr>insert_ok := False\<rparr>) [] =
     Returns () \<lparr>db = [], existingIds = {},
              trace = [Console MongoConnected, Console SeedModeActive,
                       SaveSentNotices [holiday_notice, vi_sem_notice],
                       Console (ErrorSavingToDB MongoConnectionFailed),
                       Console (SeedingComplete 2),
                       Console MongoDisconnected]\<rparr>"
  by (simp add: example_seed_insert_fails)
    (simp add: fetchNotices_def merge_unique_def new_Map_def Map_set_all_def data_or_empty_def
       example_defs js_def)

theorem seed_mode_run_witness:
  "SEED_MODE (example_config\<lparr>SEED_MODE := True\<rparr>) \<and> trace example_world = [] \<and>
   db (final (run (example_config\<lparr>SEED_MODE := True\<rparr>) example_services
                (main_strategies (example_config\<lparr>SEED_MODE := True\<rparr>) example_services)
                example_world))
     = [operation holiday_notice, operation vi_sem_notice] \<and>
   (\<forall>m. Send m \<notin> set (trace (final (run (example_config\<lparr>SEED_MODE := True\<rparr>) example_services
                (main_strategies (example_config\<lparr>SEED_MODE := True\<rparr>) example_services)
                example_world)))) \<and>
   (\<forall>ns. ApplyFilters ns \<notin> set (trace (final (run (example_config\<lparr>SEED_MODE := True\<rparr>) example_services
                (main_strategies (example_config\<lparr>SEED_MODE := True\<rparr>) example_services)
                example_world)))) \<and>
   SaveSentNotices [holiday_notice, vi_sem_notice]
     \<in> set (trace (final (run (example_config\<lparr>SEED_MODE := True\<rparr>) example_services
                (main_strategies (example_config\<lparr>SEED_MODE := True\<rparr>) example_services)
                example_world))) \<and>
   (\<exists>w'. run (example_config\<lparr>SEED_MODE := True\<rparr>) example_services
                (main_strategies (example_config\<lparr>SEED_MODE := True\<rparr>) example_services)
                example_world = Returns () w')"
proof -
  let ?cfg = "example_config\<lparr>SEED_MODE := True\<rparr>"
  let ?toSeed = "[holiday_notice, vi_sem_notice]"
  have a: "SEED_MODE ?cfg" by simp
  have b: "trace example_world = []" by (simp add: example_world_def)
  have h: "MONGO_URI ?cfg = Some (js ''mongodb://db'') \<and> js ''mongodb://db'' \<noteq> [] \<and>
           connect_ok example_services \<and> news example_services = Body (Some [vi_sem_notice]) \<and>
           exam example_services = Body (Some [holiday_notice]) \<and> find_ok example_services \<and>
           insert_ok example_services"
    by (simp add: example_config_def example_services_def js_def)
  have t: "?toSeed = filter (\<lambda>n. String (id_n n) \<notin> noticeId ` set (db example_world))
             (sort_notices example_services
                (merge_unique (data_or_empty (Some [vi_sem_notice]))
                   (data_or_empty (Some [holiday_notice]))))"
    by (simp add: merge_unique_def new_Map_def Map_set_all_def data_or_empty_def sort_notices_def
          comes_after_def example_defs js_def)
  have v: "(\<forall>n \<in> set ?toSeed. valid_doc (operation n)) \<and>
           distinct (map (\<lambda>n. String (id_n n)) ?toSeed)"
    by (simp add: operation_def valid_doc_def example_defs js_def)
  note run = seed_mode_run [OF a b, where sv = example_services
         and strategies = "main_strategies ?cfg example_services" and uri = "js ''mongodb://db''"
         and a = "Some [vi_sem_notice]" and b = "Some [holiday_notice]" and toSeed = ?toSeed]
  let ?r = "run ?cfg example_services (main_strategies ?cfg example_services) example_world"
  from run have quiet: "\<forall>m. Send m \<notin> set (trace (final ?r))"
    "\<forall>ns. ApplyFilters ns \<notin> set (trace (final ?r))"
    by blast+
  from run h t v have "db (final ?r) = db example_world @ map operation ?toSeed"
    by blast
  then have stored: "db (final ?r) = [operation holiday_notice, operation vi_sem_notice]"
    by (simp add: example_world_def)
  from run h t have "\<forall>ns. SaveSentNotices ns \<in> set (trace (final ?r))
                        \<longleftrightarrow> ns = ?toSeed \<and> ?toSeed \<noteq> []"
    by blast
  then have called: "SaveSentNotices ?toSeed \<in> set (trace (final ?r))"
    by simp
  from run h t have "\<exists>w'. ?r = (if disconnect_ok example_services then Returns () w'
                                else Throws DisconnectFailed w')"
    by blast
  then have returns: "\<exists>w'. ?r = Returns () w'"
    by (simp add: example_services_def)
  from a b stored quiet called returns show ?thesis by blast
qed



































subsection \<open>Time filter\<close>

lemma check_each_called_subset: "set (snd (check_each chk ss n)) \<subseteq> set ss"
  by (induction ss) (auto split: prod.splits)

lemma applyFilters_calls_subset:
  "(s, n) \<in> set (snd (applyFilters chk ss ns)) \<Longrightarrow> s \<in> set ss"
  using check_each_called_subset[of chk ss] by (auto simp: applyFilters_calls)

lemma notify_branch_trace:
  "set (trace (final (notify_branch cfg sv ss u w3))) \<subseteq>
     set (trace w3) \<union> range ApplyFilters \<union>
     {Check s n |s n. (s, n) \<in> set (snd (applyFilters (check (Date_parse sv) (existingIds w3)) ss u))}
     \<union> range Send \<union> range Console \<union> range SaveSentNotices"
proof -
  let ?rel = "fst (applyFilters (check (Date_parse sv) (existingIds w3)) ss u)"
  show ?thesis
  proof (cases "?rel \<noteq> [] \<and> send_result sv = Delivered \<and> \<not> TEST_MODE cfg")
    case True
    then show ?thesis
      apply (simp add: notify_branch_cases Let_def)
      apply (rule subset_trans [OF saveSentNotices_trace(1)])
      apply (auto simp: emit_def)
      done
  next
    case False
    then show ?thesis
      by (auto simp: notify_branch_cases emit_def Let_def split: delivery.splits)
  qed
qed

lemma run_checks:
  assumes "Check s n \<in> set (trace (final (run cfg sv ss w)))" and "Check s n \<notin> set (trace w)"
  shows "s \<in> set ss"
proof (cases "prepare cfg sv w")
  case (Returns u w3)
  note p = prepare_Returns(2)[OF Returns]
  show ?thesis
  proof (cases "SEED_MODE cfg")
    case True
    then have t: "run_try cfg sv ss w = seed_branch sv u w3"
      by (simp add: run_try_phases Returns)
    have "Check s n \<notin> set (trace (final (run cfg sv ss w)))"
      using seed_branch_trace[of sv u w3] p assms(2)
      by (auto simp: run_cases t seed_branch_cases emit_def)
    with assms(1) show ?thesis by simp
  next
    case False
    then have t: "run_try cfg sv ss w = notify_branch cfg sv ss u w3"
      by (simp add: run_try_phases Returns)
    have "Check s n \<in> set (trace (final (notify_branch cfg sv ss u w3)))"
      using assms(1) by (cases "notify_branch cfg sv ss u w3") (auto simp: run_cases t emit_def split: if_splits)
    with notify_branch_trace[of cfg sv ss u w3] p assms(2)
    have "(s, n) \<in> set (snd (applyFilters (check (Date_parse sv) (existingIds w3)) ss u))"
      by auto
    then show ?thesis by (rule applyFilters_calls_subset)
  qed
next
  case (Throws e w')
  then have t: "run_try cfg sv ss w = Throws e w'"
    by (simp add: run_try_phases)
  have "Check s n \<notin> set (trace (final (run cfg sv ss w)))"
    using prepare_Throws(2)[OF Throws] assms(2) by (auto simp: run_cases t emit_def)
  with assms(1) show ?thesis by simp
next
  case (Exits c w')
  then show ?thesis by (simp add: prepare_not_Exits)
qed

lemma main_time_checks:
  assumes "Check (TimeFilter f) n \<in> set (trace (final (main cfg sv coll)))"
  shows "f = new_TimeFilterStrategy cfg (Date_now sv)"
proof -
  let ?w = "if \<not> TEST_MODE cfg then \<lparr>db = coll, existingIds = {}, trace = []\<rparr>
            else emit (Console TestModeSkipping) \<lparr>db = coll, existingIds = {}, trace = []\<rparr>"
  have m: "main cfg sv coll = run cfg sv (main_strategies cfg sv) ?w"
    by (simp add: main_def Let_def)
  have "Check (TimeFilter f) n \<notin> set (trace ?w)" by (simp add: emit_def)
  with assms have "TimeFilter f \<in> set (main_strategies cfg sv)"
    unfolding m by (rule run_checks)
  then show ?thesis by (auto simp: main_strategies_def split: if_splits)
qed

text \<open>
  C5. The check of a time filter built at time \<open>t0\<close> compares the notice's parsed date
  with the cutoff stored at construction, \<open>t0\<close> minus the age limit in hours, by
  \<^verbatim>\<open>>=\<close>: the filter object is all the check reads. With a valid date and a valid
  cutoff the check holds exactly when the date is not before the cutoff, so a notice dated
  at the cutoff is kept and an older one dropped. An unset or empty age limit variable
  gives 24 hours. Every time-filter check that a run of the execution block makes is made
  with the one filter built before the run, so with the cutoff computed then.
\<close>

theorem TimeFilter_check_inclusive:
  "(TimeFilter_check parse (new_TimeFilterStrategy cfg t0) n \<longleftrightarrow>
      date_ge (parse (date n))
        (case NOTICE_AGE_LIMIT_HOURS cfg of None \<Rightarrow> None
         | Some hours \<Rightarrow> TimeClip (t0 - hours * 60 * 60 * 1000)))
   \<and> (NOTICE_AGE_LIMIT_HOURS cfg = Some hours \<and> \<bar>t0 - hours * 3600000\<bar> \<le> 8640000000000000 \<and>
      parse (date n) = Some d
        \<longrightarrow> (TimeFilter_check parse (new_TimeFilterStrategy cfg t0) n \<longleftrightarrow> d \<ge> t0 - hours * 3600000))
   \<and> (env_NOTICE_AGE_LIMIT_HOURS e = None \<or> env_NOTICE_AGE_LIMIT_HOURS e = Some []
        \<longrightarrow> NOTICE_AGE_LIMIT_HOURS (Config e) = Some 24)
   \<and> (Check (TimeFilter f) n' \<in> set (trace (final (main cfg sv coll)))
        \<longrightarrow> f = new_TimeFilterStrategy cfg (Date_now sv))"
proof -
  have "Check (TimeFilter f) n' \<in> set (trace (final (main cfg sv coll)))
        \<longrightarrow> f = new_TimeFilterStrategy cfg (Date_now sv)"
    using main_time_checks by blast
  then show ?thesis
    by (auto simp: TimeFilter_check_def new_TimeFilterStrategy_def TimeClip_def Config_def
        or_default_def parseInt_def js_def is_space_def is_digit_def digits_value_def)
qed

theorem TimeFilter_check_inclusive_witness:
  "TimeFilter_check example_parse (new_TimeFilterStrategy example_config 1740873600000)
     \<lparr>id_n = IdNum 7, title = [], date = js ''2025-03-01'', content = []\<rparr> \<and>
   \<not> TimeFilter_check example_parse (new_TimeFilterStrategy example_config 1740873600001)
     \<lparr>id_n = IdNum 7, title = [], date = js ''2025-03-01'', content = []\<rparr> \<and>
   NOTICE_AGE_LIMIT_HOURS
     (Config \<lparr>env_MONGO_URI = None, env_TEST_MODE = None, env_SEED_MODE = None,
              env_NOTICE_AGE_LIMIT_HOURS = None\<rparr>) = Some 24 \<and>
   Check (TimeFilter \<lparr>cutoffDate = Some 1740787200000\<rparr>) vi_sem_notice
     \<in> set (trace (final (main example_config example_services []))) \<and>
   \<lparr>cutoffDate = Some 1740787200000\<rparr> =
     new_TimeFilterStrategy example_config (Date_now example_services)"
proof -
  let ?n = "\<lparr>id_n = IdNum 7, title = [], date = js ''2025-03-01'', content = []\<rparr>"
  let ?e = "\<lparr>env_MONGO_URI = None, env_TEST_MODE = None, env_SEED_MODE = None,
             env_NOTICE_AGE_LIMIT_HOURS = None\<rparr>"
  let ?f = "\<lparr>cutoffDate = Some 1740787200000\<rparr>"
  have hours: "NOTICE_AGE_LIMIT_HOURS example_config = Some 24"
    by (simp add: example_config_def)
  have parsed: "example_parse (date ?n) = Some 1740787200000"
    by (simp add: example_parse_def js_def)
  have unset: "env_NOTICE_AGE_LIMIT_HOURS ?e = None"
    by simp
  have checked: "Check (TimeFilter ?f) vi_sem_notice
                   \<in> set (trace (final (main example_config example_services [])))"
    by (simp add: example_normal_run)
  from TimeFilter_check_inclusive [of example_parse example_config 1740873600000 ?n 24
         1740787200000 ?e ?f vi_sem_notice example_services "[]"]
       TimeFilter_check_inclusive [of example_parse example_config 1740873600001 ?n 24
         1740787200000 ?e ?f vi_sem_notice example_services "[]"]
       hours parsed unset checked
  show ?thesis by (simp add: TimeClip_def)
qed

end
